theory Spec2Isabelle
  imports Main "HOL-Library.Sublist" "HOL-Library.List_Lexorder"
begin

section \<open>Text and bytes\<close>

text \<open>
  The server (\<^verbatim>\<open>src/pyss3/server.py\<close>) handles two kinds of sequences: Python 3
  \<^verbatim>\<open>str\<close> values, which are sequences of Unicode code points, and \<^verbatim>\<open>bytes\<close>
  values read from and written to sockets. A \<^verbatim>\<open>str\<close> is modelled as a list
  of code points (\<open>nat\<close>), a \<^verbatim>\<open>bytes\<close> value as a list of 8-bit characters.
  \<open>u\<close> turns an ASCII literal into the \<^verbatim>\<open>str\<close> with the same characters.
\<close>

type_synonym ustr = "nat list"
type_synonym bytes = "char list"

definition u :: "string \<Rightarrow> ustr" where
  "u s = map of_char s"

text \<open>Python exceptions that the modelled code can raise.  \<open>KeyboardInterrupt\<close> is
  the only one that is not a subclass of \<^verbatim>\<open>Exception\<close>; \<open>OtherException\<close>
  stands for any further subclass of \<^verbatim>\<open>Exception\<close>, with its message.\<close>

datatype exn =
    KeyboardInterrupt
  | IndexError
  | ValueError
  | TypeError
  | AttributeError
  | OSError
  | UnicodeDecodeError
  | UnicodeEncodeError
  | OtherException ustr

fun is_Exception :: "exn \<Rightarrow> bool" where
  "is_Exception KeyboardInterrupt = False"
| "is_Exception _ = True"

subsection \<open>String primitives of Python\<close>

text \<open>\<^verbatim>\<open>s.rfind(c)\<close> for a single character: the highest index of \<open>c\<close>, or -1.\<close>

definition rfind :: "nat \<Rightarrow> ustr \<Rightarrow> int" where
  "rfind c s =
     (if c \<in> set s
      then int (length s) - 1 - int (length (takeWhile (\<lambda>x. x \<noteq> c) (rev s)))
      else - 1)"

text \<open>\<^verbatim>\<open>s.rstrip(c)\<close> for a single character.\<close>

definition rstrip :: "nat \<Rightarrow> ustr \<Rightarrow> ustr" where
  "rstrip c s = rev (dropWhile (\<lambda>x. x = c) (rev s))"

text \<open>\<^verbatim>\<open>s.replace(old, new)\<close>: the non-overlapping occurrences of \<open>old\<close> are
  replaced from left to right, in a single pass. For an empty \<open>old\<close> Python puts
  \<open>new\<close> before every character and at the end.\<close>

function str_replace :: "ustr \<Rightarrow> ustr \<Rightarrow> ustr \<Rightarrow> ustr" where
  "str_replace old new s =
     (if old = [] then new @ concat (map (\<lambda>c. c # new) s)
      else if s = [] then []
      else if prefix old s then new @ str_replace old new (drop (length old) s)
      else hd s # str_replace old new (tl s))"
  by pat_completeness auto
termination
  by (relation "measure (\<lambda>(old, new, s). length s)") auto

declare str_replace.simps [simp del]

subsection \<open>\<^verbatim>\<open>posixpath\<close>\<close>

definition SEP :: nat where
  "SEP = 47"

definition DOT :: nat where
  "DOT = 46"

text \<open>
  \<^verbatim>\<open>
  def split(p):
      i = p.rfind(sep) + 1
      head, tail = p[:i], p[i:]
      if head and head != sep*len(head):
          head = head.rstrip(sep)
      return head, tail
  \<close>
\<close>

definition path_split :: "ustr \<Rightarrow> ustr \<times> ustr" where
  "path_split p =
     (let i = nat (rfind SEP p + 1);
          head = take i p;
          tail = drop i p
      in (if head \<noteq> [] \<and> head \<noteq> replicate (length head) SEP
          then rstrip SEP head else head, tail))"

text \<open>
  \<^verbatim>\<open>
  def splitext(p):            # genericpath._splitext(p, '/', None, '.')
      sepIndex = p.rfind(sep)
      dotIndex = p.rfind(extsep)
      if dotIndex > sepIndex:
          filenameIndex = sepIndex + 1
          while filenameIndex < dotIndex:       # skip all leading dots
              if p[filenameIndex:filenameIndex+1] != extsep:
                  return p[:dotIndex], p[dotIndex:]
              filenameIndex += 1
      return p, p[:0]
  \<close>
\<close>

definition path_splitext :: "ustr \<Rightarrow> ustr \<times> ustr" where
  "path_splitext p =
     (let sepIndex = rfind SEP p;
          dotIndex = rfind DOT p
      in if dotIndex > sepIndex \<and>
            list_ex (\<lambda>k. p ! k \<noteq> DOT) [nat (sepIndex + 1) ..< nat dotIndex]
         then (take (nat dotIndex) p, drop (nat dotIndex) p)
         else (p, []))"

text \<open>
  \<^verbatim>\<open>
  def join(a, b):
      path = a
      if b.startswith(sep):                  path = b
      elif not path or path.endswith(sep):   path += b
      else:                                  path += sep + b
      return path
  \<close>
\<close>

definition path_join :: "ustr \<Rightarrow> ustr \<Rightarrow> ustr" where
  "path_join a b =
     (if b \<noteq> [] \<and> hd b = SEP then b
      else if a = [] \<or> last a = SEP then a @ b
      else a @ [SEP] @ b)"

text \<open>\<^verbatim>\<open>xs[i]\<close> for an index that is not negative.\<close>

definition py_nth :: "'a list \<Rightarrow> nat \<Rightarrow> exn + 'a" where
  "py_nth xs i = (if i < length xs then Inr (xs ! i) else Inl IndexError)"

text \<open>\<^verbatim>\<open>xs[i]\<close> for any integer index: a negative index counts from the end.\<close>

definition py_index :: "'a list \<Rightarrow> int \<Rightarrow> exn + 'a" where
  "py_index xs i =
     (if 0 \<le> i \<and> i < int (length xs) then Inr (xs ! nat i)
      else if i < 0 \<and> - i \<le> int (length xs) then Inr (xs ! nat (int (length xs) + i))
      else Inl IndexError)"

text \<open>\<^verbatim>\<open>s.split(sep)\<close> for a separator that is not empty (every separator of the
  server is a literal): the pieces between the non-overlapping occurrences of
  \<open>sep\<close>, found from left to right. There is always at least one piece.\<close>

function str_split :: "ustr \<Rightarrow> ustr \<Rightarrow> ustr list" where
  "str_split sep s =
     (if sep = [] then [s]
      else if s = [] then [[]]
      else if prefix sep s then [] # str_split sep (drop (length sep) s)
      else (case str_split sep (tl s) of
              [] \<Rightarrow> [[hd s]]
            | r # rs \<Rightarrow> (hd s # r) # rs))"
  by pat_completeness auto
termination
  by (relation "measure (\<lambda>(sep, s). length s)") auto

declare str_split.simps [simp del]

text \<open>\<^verbatim>\<open>sub in s\<close>.\<close>

definition str_contains :: "ustr \<Rightarrow> ustr \<Rightarrow> bool" where
  "str_contains sub s = list_ex (\<lambda>t. prefix sub t) (suffixes s)"

text \<open>\<^verbatim>\<open>sep.join(xs)\<close>.\<close>

fun str_join :: "ustr \<Rightarrow> ustr list \<Rightarrow> ustr" where
  "str_join sep [] = []"
| "str_join sep [x] = x"
| "str_join sep (x # y # ys) = x @ sep @ str_join sep (y # ys)"

text \<open>\<^verbatim>\<open>"%d" % n\<close> and \<^verbatim>\<open>str(n)\<close> for integers.\<close>

fun str_of_nat :: "nat \<Rightarrow> ustr" where
  "str_of_nat n = (if n < 10 then [48 + n] else str_of_nat (n div 10) @ [48 + n mod 10])"

declare str_of_nat.simps [simp del]

definition str_of_int :: "int \<Rightarrow> ustr" where
  "str_of_int i = (if i < 0 then 45 # str_of_nat (nat (- i)) else str_of_nat (nat i))"

text \<open>The white space of \<^verbatim>\<open>str.strip\<close> and of \<^verbatim>\<open>\s\<close> in a \<^verbatim>\<open>str\<close> pattern.\<close>

definition is_space :: "nat \<Rightarrow> bool" where
  "is_space c =
     ((9 \<le> c \<and> c \<le> 13) \<or> (28 \<le> c \<and> c \<le> 32) \<or> c = 133 \<or> c = 160 \<or> c = 5760 \<or>
      (8192 \<le> c \<and> c \<le> 8202) \<or> c = 8232 \<or> c = 8233 \<or> c = 8239 \<or> c = 8287 \<or> c = 12288)"

text \<open>
  The decimal digits of \<^verbatim>\<open>\d\<close> in a \<^verbatim>\<open>str\<close> pattern and of \<^verbatim>\<open>int\<close>: the ASCII digits
  and the decimal digits of the other scripts (the category \<^verbatim>\<open>Nd\<close> of Unicode 14.0,
  which Python 3.11 has). The ten digits of a script are consecutive code points
  in the order of their values; \<open>digit_zeros\<close> are the digits of value 0.
\<close>

definition digit_zeros :: "nat list" where
  "digit_zeros =
     [48, 1632, 1776, 1984, 2406, 2534, 2662, 2790, 2918, 3046, 3174, 3302, 3430, 3558, 3664,
      3792, 3872, 4160, 4240, 6112, 6160, 6470, 6608, 6784, 6800, 6992, 7088, 7232, 7248, 42528,
      43216, 43264, 43472, 43504, 43600, 44016, 65296, 66720, 68912, 69734, 69872, 69942, 70096,
      70384, 70736, 70864, 71248, 71360, 71472, 71904, 72016, 72784, 73040, 73120, 92768, 92864,
      93008, 120782, 120792, 120802, 120812, 120822, 123200, 123632, 125264, 130032]"

definition digit_val :: "nat \<Rightarrow> nat option" where
  "digit_val c =
     (case filter (\<lambda>z. z \<le> c \<and> c < z + 10) digit_zeros of
        [] \<Rightarrow> None
      | z # zs \<Rightarrow> Some (c - z))"

definition is_digit :: "nat \<Rightarrow> bool" where
  "is_digit c = (case digit_val c of None \<Rightarrow> False | Some v \<Rightarrow> True)"

definition digits_val :: "ustr \<Rightarrow> nat" where
  "digits_val ds =
     foldl (\<lambda>acc d. 10 * acc + (case digit_val d of None \<Rightarrow> 0 | Some v \<Rightarrow> v)) 0 ds"


text \<open>
  \<^verbatim>\<open>int(s)\<close> for a \<^verbatim>\<open>str\<close> (Python 3): surrounding white space, an optional sign,
  and decimal digits, between which single underscores may stand. The white
  space of \<^verbatim>\<open>int\<close> is that of \<^verbatim>\<open>str.strip\<close> without the separators U+001C to
  U+001F. Anything else is a \<^verbatim>\<open>ValueError\<close>. The conversion is the unbounded one:
  the limit on the number of digits that later interpreters have
  (\<^verbatim>\<open>sys.set_int_max_str_digits\<close>) is not set.
\<close>

definition is_int_space :: "nat \<Rightarrow> bool" where
  "is_int_space c = ((9 \<le> c \<and> c \<le> 13) \<or> c = 32 \<or> (128 \<le> c \<and> is_space c))"

definition int_digits :: "ustr \<Rightarrow> ustr option" where
  "int_digits ds =
     (if ds \<noteq> [] \<and> is_digit (hd ds) \<and> is_digit (last ds) \<and>
         list_all (\<lambda>c. is_digit c \<or> c = 95) ds \<and>
         list_all (\<lambda>(a, b). is_digit a \<or> is_digit b) (zip ds (tl ds))
      then Some (filter is_digit ds) else None)"

definition py_int :: "ustr \<Rightarrow> exn + int" where
  "py_int s =
     (let t = rev (dropWhile is_int_space (rev (dropWhile is_int_space s)));
          neg = (t \<noteq> [] \<and> hd t = 45);
          ds = (if t \<noteq> [] \<and> (hd t = 45 \<or> hd t = 43) then tl t else t)
      in case int_digits ds of
           None \<Rightarrow> Inl ValueError
         | Some d \<Rightarrow> Inr (if neg then - int (digits_val d) else int (digits_val d)))"

subsection \<open>UTF-8\<close>

text \<open>\<^verbatim>\<open>b.decode()\<close>: strict UTF-8 (no overlong forms, no surrogates, nothing above
  U+10FFFF); an ill-formed input raises \<^verbatim>\<open>UnicodeDecodeError\<close>.\<close>

definition cont :: "char \<Rightarrow> bool" where
  "cont b = (128 \<le> (of_char b :: nat) \<and> (of_char b :: nat) < 192)"

definition cv :: "char \<Rightarrow> nat" where
  "cv b = of_char b - 128"

definition cons_ok :: "nat \<Rightarrow> exn + ustr \<Rightarrow> exn + ustr" where
  "cons_ok n r = (case r of Inl e \<Rightarrow> Inl e | Inr s \<Rightarrow> Inr (n # s))"

fun utf8_decode :: "bytes \<Rightarrow> exn + ustr" where
  "utf8_decode [] = Inr []"
| "utf8_decode (b0 # bs) =
     (let n0 = (of_char b0 :: nat) in
      if n0 < 128 then cons_ok n0 (utf8_decode bs)
      else if 194 \<le> n0 \<and> n0 < 224 then
        (case bs of
           b1 # r \<Rightarrow>
             if cont b1 then cons_ok ((n0 - 192) * 64 + cv b1) (utf8_decode r)
             else Inl UnicodeDecodeError
         | _ \<Rightarrow> Inl UnicodeDecodeError)
      else if 224 \<le> n0 \<and> n0 < 240 then
        (case bs of
           b1 # b2 # r \<Rightarrow>
             if cont b1 \<and> cont b2 \<and>
                (if n0 = 224 then 160 \<le> (of_char b1 :: nat) else True) \<and>
                (if n0 = 237 then (of_char b1 :: nat) < 160 else True)
             then cons_ok (((n0 - 224) * 64 + cv b1) * 64 + cv b2) (utf8_decode r)
             else Inl UnicodeDecodeError
         | _ \<Rightarrow> Inl UnicodeDecodeError)
      else if 240 \<le> n0 \<and> n0 < 245 then
        (case bs of
           b1 # b2 # b3 # r \<Rightarrow>
             if cont b1 \<and> cont b2 \<and> cont b3 \<and>
                (if n0 = 240 then 144 \<le> (of_char b1 :: nat) else True) \<and>
                (if n0 = 244 then (of_char b1 :: nat) < 144 else True)
             then cons_ok ((((n0 - 240) * 64 + cv b1) * 64 + cv b2) * 64 + cv b3)
                    (utf8_decode r)
             else Inl UnicodeDecodeError
         | _ \<Rightarrow> Inl UnicodeDecodeError)
      else Inl UnicodeDecodeError)"

text \<open>\<^verbatim>\<open>s.encode()\<close> and \<^verbatim>\<open>s.encode("utf-8")\<close>; a surrogate code point raises
  \<^verbatim>\<open>UnicodeEncodeError\<close>.\<close>

definition utf8_encode_cp :: "nat \<Rightarrow> exn + bytes" where
  "utf8_encode_cp c =
     (if c < 128 then Inr [char_of c]
      else if c < 2048 then Inr [char_of (192 + c div 64), char_of (128 + c mod 64)]
      else if 55296 \<le> c \<and> c < 57344 then Inl UnicodeEncodeError
      else if c < 65536 then
        Inr [char_of (224 + c div 4096), char_of (128 + (c div 64) mod 64),
             char_of (128 + c mod 64)]
      else if c < 1114112 then
        Inr [char_of (240 + c div 262144), char_of (128 + (c div 4096) mod 64),
             char_of (128 + (c div 64) mod 64), char_of (128 + c mod 64)]
      else Inl UnicodeEncodeError)"

fun utf8_encode :: "ustr \<Rightarrow> exn + bytes" where
  "utf8_encode [] = Inr []"
| "utf8_encode (c # cs) =
     (case utf8_encode_cp c of
        Inl e \<Rightarrow> Inl e
      | Inr b \<Rightarrow> (case utf8_encode cs of Inl e \<Rightarrow> Inl e | Inr bs \<Rightarrow> Inr (b @ bs)))"

section \<open>JSON\<close>

text \<open>
  The values that \<^verbatim>\<open>json.dumps\<close> serialises. Python floats are not modelled:
  their type \<open>'f\<close> and their \<^verbatim>\<open>repr\<close> (\<open>float_repr\<close>, which for
  \<^verbatim>\<open>json\<close> also yields \<^verbatim>\<open>NaN\<close>, \<^verbatim>\<open>Infinity\<close> and \<^verbatim>\<open>-Infinity\<close>) are parameters.
  A dictionary is an association list in insertion order.
\<close>

datatype 'f jkey = KStr ustr | KInt int | KBool bool | KNone | KFloat 'f

datatype 'f json =
    JNull
  | JBool bool
  | JInt int
  | JFloat 'f
  | JStr ustr
  | JList "'f json list"
  | JDict "('f jkey \<times> 'f json) list"

definition hex_digit :: "nat \<Rightarrow> nat" where
  "hex_digit d = (if d < 10 then 48 + d else 87 + d)"

fun hex_of_nat :: "nat \<Rightarrow> ustr" where
  "hex_of_nat n =
     (if n < 16 then [hex_digit n] else hex_of_nat (n div 16) @ [hex_digit (n mod 16)])"

declare hex_of_nat.simps [simp del]

text \<open>\<^verbatim>\<open>'{0:04x}'.format(n)\<close>\<close>

definition format_04x :: "nat \<Rightarrow> ustr" where
  "format_04x n = replicate (4 - length (hex_of_nat n)) 48 @ hex_of_nat n"

text \<open>
  \<^verbatim>\<open>json.encoder.py_encode_basestring_ascii\<close> (\<^verbatim>\<open>ensure_ascii\<close> is true by
  default): every character outside \<^verbatim>\<open>' '..'~'\<close>, the quote and the backslash
  are escaped; a character beyond U+FFFF becomes a surrogate pair.
\<close>

definition json_escape_char :: "nat \<Rightarrow> ustr" where
  "json_escape_char c =
     (if c = 92 then [92, 92]
      else if c = 34 then [92, 34]
      else if c = 8 then [92] @ u ''b''
      else if c = 12 then [92] @ u ''f''
      else if c = 10 then [92] @ u ''n''
      else if c = 13 then [92] @ u ''r''
      else if c = 9 then [92] @ u ''t''
      else if 32 \<le> c \<and> c \<le> 126 then [c]
      else if c < 65536 then [92] @ u ''u'' @ format_04x c
      else [92] @ u ''u'' @ format_04x (55296 + ((c - 65536) div 1024) mod 1024) @
           [92] @ u ''u'' @ format_04x (56320 + (c - 65536) mod 1024))"

definition json_encode_str :: "ustr \<Rightarrow> ustr" where
  "json_encode_str s = [34] @ concat (map json_escape_char s) @ [34]"

definition json_key_str :: "('f \<Rightarrow> ustr) \<Rightarrow> 'f jkey \<Rightarrow> ustr" where
  "json_key_str float_repr k =
     (case k of
        KStr s \<Rightarrow> s
      | KInt i \<Rightarrow> str_of_int i
      | KBool b \<Rightarrow> (if b then u ''true'' else u ''false'')
      | KNone \<Rightarrow> u ''null''
      | KFloat x \<Rightarrow> float_repr x)"

fun json_dumps :: "('f \<Rightarrow> ustr) \<Rightarrow> 'f json \<Rightarrow> ustr" where
  "json_dumps float_repr JNull = u ''null''"
| "json_dumps float_repr (JBool b) = (if b then u ''true'' else u ''false'')"
| "json_dumps float_repr (JInt i) = str_of_int i"
| "json_dumps float_repr (JFloat x) = float_repr x"
| "json_dumps float_repr (JStr s) = json_encode_str s"
| "json_dumps float_repr (JList xs) =
     u ''['' @ str_join (u '', '') (map (json_dumps float_repr) xs) @ u '']''"
| "json_dumps float_repr (JDict kvs) =
     u ''{'' @
     str_join (u '', '')
       (map (\<lambda>(k, v). json_encode_str (json_key_str float_repr k) @ u '': '' @
                        json_dumps float_repr v) kvs) @
     u ''}''"

section \<open>HTTP message codec\<close>

definition CRLF :: ustr where
  "CRLF = [13, 10]"

text \<open>
  \<^verbatim>\<open>
  HTTP_RESPONSE = ("HTTP/1.1 200 OK\r\n"
                   "Connection: close\r\n"
                   "Access-Control-Allow-Origin: *\r\n"
                   "Server: SS3\r\n"
                   "Content-type: %s\r\n"
                   "Content-length: %d\r\n\r\n")
  \<close>
  \<open>HTTP_RESPONSE ct n\<close> is \<^verbatim>\<open>HTTP_RESPONSE % (ct, n)\<close>.
\<close>

definition HTTP_RESPONSE :: "ustr \<Rightarrow> nat \<Rightarrow> ustr" where
  "HTTP_RESPONSE ct n =
     u ''HTTP/1.1 200 OK'' @ CRLF @
     u ''Connection: close'' @ CRLF @
     u ''Access-Control-Allow-Origin: *'' @ CRLF @
     u ''Server: SS3'' @ CRLF @
     u ''Content-type: '' @ ct @ CRLF @
     u ''Content-length: '' @ str_of_nat n @ CRLF @ CRLF"

text \<open>\<^verbatim>\<open>HTTP_404\<close> is encoded when the module is loaded; it is ASCII.\<close>

definition HTTP_404 :: bytes where
  "HTTP_404 =
     map char_of
       (u ''HTTP/1.1 404 Not Found'' @ CRLF @
        u ''Connection: close'' @ CRLF @
        u ''Server: SS3'' @ CRLF @
        u ''Content-length: 0'' @ CRLF @ CRLF)"

definition CONTET_TYPE :: "(ustr \<times> ustr) list" where
  "CONTET_TYPE =
     [(u ''html'', u ''text/html''),
      (u ''css'', u ''text/css''),
      (u ''js'', u ''application/javascript''),
      (u ''png'', u ''image/png''),
      (u ''json'', u ''application/json''),
      (u ''ico'', u ''image/vnd.microsoft.icon''),
      (u ''_other_'', u ''application/octet-stream'')]"

text \<open>
  \<^verbatim>\<open>
  def content_type(ext):
      return CONTET_TYPE[ext] if ext in CONTET_TYPE else CONTET_TYPE["_other_"]
  \<close>
\<close>

definition content_type :: "ustr \<Rightarrow> ustr" where
  "content_type ext =
     (case map_of CONTET_TYPE ext of
        Some t \<Rightarrow> t
      | None \<Rightarrow> u ''application/octet-stream'')"

text \<open>
  \<^verbatim>\<open>
  def get_http_path(http_request):
      return http_request.split('\n')[0].split(' ')[1]
  \<close>
  The first piece of a split always exists; the second need not.
\<close>

definition get_http_path :: "ustr \<Rightarrow> exn + ustr" where
  "get_http_path http_request =
     py_nth (str_split (u '' '') (hd (str_split [10] http_request))) 1"

text \<open>
  \<^verbatim>\<open>
  def get_http_body(http_request):
      return http_request.split("\r\n\r\n")[1]
  \<close>
\<close>

definition get_http_body :: "ustr \<Rightarrow> exn + ustr" where
  "get_http_body http_request = py_nth (str_split (CRLF @ CRLF) http_request) 1"

text \<open>
  \<^verbatim>\<open>
  def get_http_contlength(http_request):
      re_match = re.search(
          r"Content-length\s*:\s*(\d+)", http_request,
          flags=re.IGNORECASE
      )
      return int(re_match.group(1)) if re_match else 0
  \<close>
  \<open>contlength_match s\<close> is the match of the pattern at the start of \<open>s\<close>, if there
  is one, as its group 1. No letter of \<^verbatim>\<open>Content-length\<close> has a case variant
  outside ASCII. The quantifiers are greedy, and since neither the colon nor a
  digit is white space, backtracking finds no other match.
\<close>

definition lower_ascii :: "nat \<Rightarrow> nat" where
  "lower_ascii c = (if 65 \<le> c \<and> c \<le> 90 then c + 32 else c)"

definition contlength_match :: "ustr \<Rightarrow> ustr option" where
  "contlength_match s =
     (if map lower_ascii (take 14 s) = u ''content-length'' then
        (let r1 = dropWhile is_space (drop 14 s) in
         if r1 \<noteq> [] \<and> hd r1 = 58 then
           (let ds = takeWhile is_digit (dropWhile is_space (tl r1))
            in if ds \<noteq> [] then Some ds else None)
         else None)
      else None)"

fun re_search_contlength :: "ustr \<Rightarrow> ustr option" where
  "re_search_contlength [] = None"
| "re_search_contlength (c # cs) =
     (case contlength_match (c # cs) of
        Some ds \<Rightarrow> Some ds
      | None \<Rightarrow> re_search_contlength cs)"

definition get_http_contlength :: "ustr \<Rightarrow> nat" where
  "get_http_contlength http_request =
     (case re_search_contlength http_request of
        Some ds \<Rightarrow> digits_val ds
      | None \<Rightarrow> 0)"

section \<open>Sockets and the log\<close>

text \<open>
  What a handler can observe and change. \<open>inbox\<close> holds the data that
  arrives on the connection, in the pieces in which it arrives; once it is empty
  the peer sends nothing more and \<^verbatim>\<open>recv\<close> returns \<^verbatim>\<open>b''\<close> (end of stream).
  \<open>sent\<close> holds the arguments of the \<^verbatim>\<open>send\<close> calls made so far; \<^verbatim>\<open>send\<close> is
  taken to transmit its whole argument. The class \<^verbatim>\<open>Print\<close> is defined in
  \<^verbatim>\<open>pyss3.util\<close>, which is not among the sources: \<open>log\<close> holds the calls of
  \<^verbatim>\<open>Print.show\<close>, \<^verbatim>\<open>Print.info\<close>, \<^verbatim>\<open>Print.warn\<close> and \<^verbatim>\<open>Print.error\<close> in
  their order, and \<open>ErrorExn e\<close> is \<^verbatim>\<open>Print.error(str(e))\<close>.
\<close>

datatype log_entry = Show ustr | Info ustr | Warn ustr | Error ustr | ErrorExn exn

record sock =
  inbox :: "bytes list"
  sent :: "bytes list"

record io = sock +
  log :: "log_entry list"

definition send :: "io \<Rightarrow> bytes \<Rightarrow> io" where
  "send s b = s\<lparr>sent := sent s @ [b]\<rparr>"

definition print :: "io \<Rightarrow> log_entry \<Rightarrow> io" where
  "print s e = s\<lparr>log := log s @ [e]\<rparr>"

text \<open>
  \<^verbatim>\<open>
  def __send_as_json__(sock, data):
      data = json.dumps(data)
      http_header = HTTP_RESPONSE % (
          content_type("json"), len(data)
      )
      sock.send(http_header.encode())
      sock.send(data.encode(ENCODING))
  \<close>
\<close>

definition send_as_json :: "('f \<Rightarrow> ustr) \<Rightarrow> io \<Rightarrow> 'f json \<Rightarrow> (exn + unit) \<times> io" where
  "send_as_json float_repr s v =
     (let data = json_dumps float_repr v;
          http_header = HTTP_RESPONSE (content_type (u ''json'')) (length data)
      in case utf8_encode http_header of
           Inl e \<Rightarrow> (Inl e, s)
         | Inr hb \<Rightarrow>
             (let s1 = send s hb
              in case utf8_encode data of
                   Inl e \<Rightarrow> (Inl e, s1)
                 | Inr db \<Rightarrow> (Inr (), send s1 db)))"

section \<open>Static resource resolver\<close>

text \<open>
  \<^verbatim>\<open>BASE_PATH = path.join(path.dirname(__file__), "resources/visual_classifier")\<close>.
  The directory of the module is a parameter of the model.
\<close>

definition BASE_PATH :: "ustr \<Rightarrow> ustr" where
  "BASE_PATH module_dir = path_join module_dir (u ''resources/visual_classifier'')"

text \<open>
  \<^verbatim>\<open>
  def parse_and_sanitize(rsc_path):
      dir, file = path.split(rsc_path)
      if not file:
          file = "index.html"
      ext = path.splitext(file)[1][1:]
      rsc_path = path.join(dir.replace('.', '').replace('//', '/'), file)[1:]
      return path.join(BASE_PATH, rsc_path), ext
  \<close>
\<close>

definition parse_and_sanitize :: "ustr \<Rightarrow> ustr \<Rightarrow> ustr \<times> ustr" where
  "parse_and_sanitize module_dir rsc_path =
     (let (dir, file0) = path_split rsc_path;
          file = (if file0 = [] then u ''index.html'' else file0);
          ext = drop 1 (snd (path_splitext file));
          rsc_path' =
            drop 1 (path_join (str_replace (u ''//'') (u ''/'') (str_replace (u ''.'') [] dir)) file)
      in (path_join (BASE_PATH module_dir) rsc_path', ext))"

text \<open>A text of ASCII characters only.\<close>

definition ascii :: "ustr \<Rightarrow> bool" where
  "ascii s = list_all (\<lambda>c. c < 128) s"

section \<open>Collaborators\<close>

text \<open>
  The classifier (\<^verbatim>\<open>pyss3.SS3\<close>) is opaque. \<open>classify\<close> is \<^verbatim>\<open>clf.classify(doc)\<close>,
  a ranked list of pairs of a category index and a confidence value, and
  \<open>classify_json\<close> is \<^verbatim>\<open>clf.classify(doc, json=True)\<close>; both may raise. The
  truth value of a confidence (a float) is the parameter \<open>float_bool\<close> of the
  functions that need it.
\<close>

record 'f classifier =
  classify :: "ustr \<Rightarrow> exn + (int \<times> 'f) list"
  classify_json :: "ustr \<Rightarrow> exn + 'f json"
  get_name :: ustr
  get_hyperparameters :: "'f json"
  get_categories :: "ustr list"

text \<open>
  The file system, as the server reads it: a path names a regular file with its
  bytes, a directory with the names \<^verbatim>\<open>listdir\<close> returns, or nothing.
\<close>

datatype fnode = File bytes | Dir "ustr list"

type_synonym filesystem = "ustr \<Rightarrow> fnode option"

definition path_exists :: "filesystem \<Rightarrow> ustr \<Rightarrow> bool" where
  "path_exists fs p = (case fs p of None \<Rightarrow> False | Some _ \<Rightarrow> True)"

definition path_isfile :: "filesystem \<Rightarrow> ustr \<Rightarrow> bool" where
  "path_isfile fs p = (case fs p of Some (File _) \<Rightarrow> True | _ \<Rightarrow> False)"

definition listdir :: "filesystem \<Rightarrow> ustr \<Rightarrow> exn + ustr list" where
  "listdir fs p = (case fs p of Some (Dir names) \<Rightarrow> Inr names | _ \<Rightarrow> Inl OSError)"

text \<open>\<^verbatim>\<open>open(p, 'rb').read()\<close>\<close>

definition read_bytes :: "filesystem \<Rightarrow> ustr \<Rightarrow> exn + bytes" where
  "read_bytes fs p = (case fs p of Some (File b) \<Rightarrow> Inr b | _ \<Rightarrow> Inl OSError)"

text \<open>
  \<^verbatim>\<open>open\<close> is \<^verbatim>\<open>codecs.open\<close>: with an encoding the file is opened in binary
  mode and decoded by a stream reader, whose lines are those of
  \<^verbatim>\<open>str.splitlines(keepends=True)\<close>. The model decodes the file when it is
  opened; the codec raises \<^verbatim>\<open>UnicodeDecodeError\<close> only when the reader reaches
  the ill-formed bytes. For a file that is valid UTF-8 there is no difference.
\<close>

definition is_linebreak :: "nat \<Rightarrow> bool" where
  "is_linebreak c =
     ((10 \<le> c \<and> c \<le> 13) \<or> (28 \<le> c \<and> c \<le> 30) \<or> c = 133 \<or> c = 8232 \<or> c = 8233)"

fun splitlines :: "ustr \<Rightarrow> ustr list" where
  "splitlines [] = []"
| "splitlines [c] = [[c]]"
| "splitlines (c # d # cs) =
     (if c = 13 \<and> d = 10 then [c, d] # splitlines cs
      else if is_linebreak c then [c] # splitlines (d # cs)
      else (case splitlines (d # cs) of
              [] \<Rightarrow> [[c]]
            | l # ls \<Rightarrow> (c # l) # ls))"

definition read_text :: "filesystem \<Rightarrow> ustr \<Rightarrow> exn + ustr" where
  "read_text fs p = (case read_bytes fs p of Inl e \<Rightarrow> Inl e | Inr b \<Rightarrow> utf8_decode b)"

text \<open>An open text file: the lines not yet read, and the number of
  \<^verbatim>\<open>readline\<close> calls made. At the end of the file \<^verbatim>\<open>readline\<close> returns \<^verbatim>\<open>''\<close>.
  The file is decoded when it is opened, where \<^verbatim>\<open>codecs.open\<close> decodes as it is
  read: for a file that is valid UTF-8 the lines are the same, and for a file
  that is not, the model raises \<^verbatim>\<open>UnicodeDecodeError\<close> at \<open>open_text\<close> where the code
  raises it at the read that reaches the invalid bytes, if one does. The
  properties of \<open>readline\<close> below are stated for files that \<open>read_text\<close> decodes.\<close>

record fhandle =
  rest :: "ustr list"
  reads :: nat

definition open_text :: "filesystem \<Rightarrow> ustr \<Rightarrow> exn + fhandle" where
  "open_text fs p =
     (case read_text fs p of
        Inl e \<Rightarrow> Inl e
      | Inr t \<Rightarrow> Inr \<lparr>rest = splitlines t, reads = 0\<rparr>)"

definition readline :: "fhandle \<Rightarrow> ustr \<times> fhandle" where
  "readline h =
     (case rest h of
        [] \<Rightarrow> ([], h\<lparr>reads := Suc (reads h)\<rparr>)
      | l # ls \<Rightarrow> (l, \<lparr>rest = ls, reads = Suc (reads h)\<rparr>))"

section \<open>Server state\<close>

text \<open>
  Modelled from the spec: the class \<^verbatim>\<open>RecursiveDefaultDict\<close> of \<^verbatim>\<open>Server.__docs__\<close>
  is defined in \<^verbatim>\<open>pyss3.util\<close>, which is not among the sources. The spec
  describes the Test Corpus Index as a mapping from a category name to a record
  of three ordered sequences, created empty for a new category; in the code they
  are the keys \<^verbatim>\<open>path\<close>, \<^verbatim>\<open>file\<close> and \<^verbatim>\<open>clf_result\<close> of \<^verbatim>\<open>__docs__[cat]\<close>. The
  three keys are always assigned one after the other, by statements that cannot
  raise, so an entry is a record of the three lists; \<open>keys\<close> is the order in
  which the keys were inserted (the order of \<^verbatim>\<open>json.dumps\<close>). The outer
  dictionary is an association list in insertion order.
\<close>

datatype field = Path | FileName | ClfResult

record entry =
  keys :: "field list"
  path :: "ustr list"
  "file" :: "ustr list"
  clf_result :: "int list"

type_synonym docs = "(ustr \<times> entry) list"

text \<open>\<^verbatim>\<open>d[k] = v\<close> on a dictionary in insertion order.\<close>

fun dict_set :: "'k \<Rightarrow> 'v \<Rightarrow> ('k \<times> 'v) list \<Rightarrow> ('k \<times> 'v) list" where
  "dict_set k v [] = [(k, v)]"
| "dict_set k v ((k', v') # r) =
     (if k' = k then (k, v) # r else (k', v') # dict_set k v r)"

text \<open>A change of the value that is stored under a key that is present.\<close>

fun dict_upd :: "'k \<Rightarrow> ('v \<Rightarrow> 'v) \<Rightarrow> ('k \<times> 'v) list \<Rightarrow> ('k \<times> 'v) list" where
  "dict_upd k f [] = []"
| "dict_upd k f ((k', v') # r) =
     (if k' = k then (k', f v') # r else (k', v') # dict_upd k f r)"

record 'f server =
  clf :: "'f classifier option"
  port :: nat
  server_socket :: "nat option"
  docs :: docs
  x_test :: "ustr list option"

text \<open>
  \<^verbatim>\<open>
  def __clear_testset__():
      Server.__docs__ = RecursiveDefaultDict()
      Server.__x_test__ = None

  def set_model(clf):
      Server.__clf__ = clf
      Server.__clear_testset__()
  \<close>
\<close>

definition clear_testset :: "'f server \<Rightarrow> 'f server" where
  "clear_testset srv = srv\<lparr>docs := [], x_test := None\<rparr>"

definition set_model :: "'f classifier \<Rightarrow> 'f server \<Rightarrow> 'f server" where
  "set_model c srv = clear_testset (srv\<lparr>clf := Some c\<rparr>)"

definition get_port :: "'f server \<Rightarrow> nat" where
  "get_port srv = port srv"

section \<open>Request handlers\<close>

text \<open>
  The parameters of the handlers that stand for the Python runtime:
  \<open>float_repr\<close> (see above), \<open>url_decode\<close> for \<^verbatim>\<open>urllib.parse.unquote\<close>, the
  directory of the module and the file system.
\<close>

record 'f runtime =
  float_repr :: "'f \<Rightarrow> ustr"
  float_bool :: "'f \<Rightarrow> bool"
  url_decode :: "ustr \<Rightarrow> ustr"
  module_dir :: ustr
  files :: filesystem

definition RECV_BUFFER :: nat where
  "RECV_BUFFER = 1024 * 1024"

text \<open>\<^verbatim>\<open>sock.recv(n)\<close>: at most \<open>n\<close> bytes of what has arrived.\<close>

definition recv :: "io \<Rightarrow> nat \<Rightarrow> bytes \<times> io" where
  "recv s n =
     (case inbox s of
        [] \<Rightarrow> ([], s)
      | c # cs \<Rightarrow>
          if length c \<le> n then (c, s\<lparr>inbox := cs\<rparr>)
          else (take n c, s\<lparr>inbox := drop n c # cs\<rparr>))"

text \<open>
  \<^verbatim>\<open>
  def __recvall_body__(sock, data, length):
      body = get_http_body(data)
      while len(body) < length:
          body += sock.recv(RECV_BUFFER).decode()
      return url_decode(body)
  \<close>
  When the body is still short and nothing more arrives, \<^verbatim>\<open>recv\<close> blocks, or
  returns \<^verbatim>\<open>b''\<close> again and again once the peer has closed: the loop never
  ends, which is the value \<open>None\<close>.
\<close>

function recvall_loop :: "nat \<Rightarrow> ustr \<Rightarrow> io \<Rightarrow> ((exn + ustr) \<times> io) option" where
  "recvall_loop len body s =
     (if length body < len then
        (if inbox s = [] then None
         else (case utf8_decode (fst (recv s RECV_BUFFER)) of
                 Inl e \<Rightarrow> Some (Inl e, snd (recv s RECV_BUFFER))
               | Inr t \<Rightarrow> recvall_loop len (body @ t) (snd (recv s RECV_BUFFER))))
      else Some (Inr body, s))"
  by pat_completeness auto
termination
  by (relation "measure (\<lambda>(len, body, s). sum_list (map (\<lambda>c. Suc (length c)) (inbox s)))")
     (auto simp: recv_def RECV_BUFFER_def split: list.splits)

declare recvall_loop.simps [simp del]

definition recvall_body ::
  "'f runtime \<Rightarrow> io \<Rightarrow> ustr \<Rightarrow> nat \<Rightarrow> ((exn + ustr) \<times> io) option" where
  "recvall_body rt s data len =
     (case get_http_body data of
        Inl e \<Rightarrow> Some (Inl e, s)
      | Inr body \<Rightarrow>
          (case recvall_loop len body s of
             None \<Rightarrow> None
           | Some (Inl e, s') \<Rightarrow> Some (Inl e, s')
           | Some (Inr body', s') \<Rightarrow> Some (Inr (url_decode rt body'), s')))"

text \<open>
  \<^verbatim>\<open>
  def __do_ack__(sock):
      http_header = HTTP_RESPONSE % (content_type(''), 0)
      sock.send(http_header.encode())
      Print.info("sending ACK back to client...")
  \<close>
\<close>

definition do_ack :: "io \<Rightarrow> (exn + unit) \<times> io" where
  "do_ack s =
     (case utf8_encode (HTTP_RESPONSE (content_type []) 0) of
        Inl e \<Rightarrow> (Inl e, s)
      | Inr hb \<Rightarrow> (Inr (), print (send s hb) (Info (u ''sending ACK back to client...''))))"

text \<open>
  \<^verbatim>\<open>
  def __do_classify__(sock, doc):
      try:
          Print.show("\t%s[...]" % doc[:50])
          Server.__send_as_json__(
              sock,
              Server.__clf__.classify(doc, json=True)
          )
          Print.info("sending classification result...")
      except Exception as e:
          Print.error(str(e))
  \<close>
  \<open>do_classify_try\<close> is the body of the \<^verbatim>\<open>try\<close>.
\<close>

definition do_classify_try ::
  "'f runtime \<Rightarrow> 'f server \<Rightarrow> io \<Rightarrow> ustr \<Rightarrow> (exn + unit) \<times> io" where
  "do_classify_try rt srv s doc =
     (let s1 = print s (Show ([9] @ take 50 doc @ u ''[...]''))
      in case clf srv of
           None \<Rightarrow> (Inl AttributeError, s1)
         | Some c \<Rightarrow>
             (case classify_json c doc of
                Inl e \<Rightarrow> (Inl e, s1)
              | Inr v \<Rightarrow>
                  (case send_as_json (float_repr rt) s1 v of
                     (Inl e, s2) \<Rightarrow> (Inl e, s2)
                   | (Inr _, s2) \<Rightarrow>
                       (Inr (), print s2 (Info (u ''sending classification result...''))))))"

definition do_classify ::
  "'f runtime \<Rightarrow> 'f server \<Rightarrow> io \<Rightarrow> ustr \<Rightarrow> (exn + unit) \<times> io" where
  "do_classify rt srv s doc =
     (case do_classify_try rt srv s doc of
        (Inl e, s') \<Rightarrow>
          if is_Exception e then (Inr (), print s' (ErrorExn e)) else (Inl e, s')
      | (Inr _, s') \<Rightarrow> (Inr (), s'))"

text \<open>
  \<^verbatim>\<open>
  def __do_get_info__(sock):
      clf = Server.__clf__
      Server.__send_as_json__(sock, {
          "model_name": clf.get_name(),
          "hps": clf.get_hyperparameters(),
          "categories": clf.get_categories() + ["[unknown]"],
          "docs": Server.__docs__
      })
      Print.info("sending classifier info...")
  \<close>
\<close>

definition field_json :: "entry \<Rightarrow> field \<Rightarrow> 'f jkey \<times> 'f json" where
  "field_json e k =
     (case k of
        Path \<Rightarrow> (KStr (u ''path''), JList (map JStr (path e)))
      | FileName \<Rightarrow> (KStr (u ''file''), JList (map JStr (file e)))
      | ClfResult \<Rightarrow> (KStr (u ''clf_result''), JList (map JInt (clf_result e))))"

definition docs_json :: "docs \<Rightarrow> 'f json" where
  "docs_json ds = JDict (map (\<lambda>(cat, e). (KStr cat, JDict (map (field_json e) (keys e)))) ds)"

definition do_get_info :: "'f runtime \<Rightarrow> 'f server \<Rightarrow> io \<Rightarrow> (exn + unit) \<times> io" where
  "do_get_info rt srv s =
     (case clf srv of
        None \<Rightarrow> (Inl AttributeError, s)
      | Some c \<Rightarrow>
          (case send_as_json (float_repr rt) s
                  (JDict
                     [(KStr (u ''model_name''), JStr (get_name c)),
                      (KStr (u ''hps''), get_hyperparameters c),
                      (KStr (u ''categories''),
                       JList (map JStr (get_categories c @ [u ''[unknown]'']))),
                      (KStr (u ''docs''), docs_json (docs srv))]) of
             (Inl e, s1) \<Rightarrow> (Inl e, s1)
           | (Inr _, s1) \<Rightarrow> (Inr (), print s1 (Info (u ''sending classifier info...'')))))"

text \<open>
  \<^verbatim>\<open>
  def __do_get_doc__(sock, file):
      doc = ""
      if ":line:" in file:
          file, line_n = file.split(":line:")
          line_n = int(line_n)
          with open(file, 'r', encoding=ENCODING) as fdoc:
              line = 0
              doc = fdoc.readline()
              while line < line_n:
                  doc = fdoc.readline()
                  line += 1
      elif ":x_test:" in file:
          if Server.__x_test__:
              idoc = int(file.split(":x_test:")[1])
              doc = Server.__x_test__[idoc]
      else:
          with open(file, 'r', encoding=ENCODING) as fdoc:
              doc = fdoc.read()

      Server.__send_as_json__(sock, {"content": doc})
      Print.info("sending document content...")
  \<close>
  \<open>read_line_loop\<close> is the \<^verbatim>\<open>while\<close> loop, \<open>read_line_at\<close> the body of the first
  \<^verbatim>\<open>with\<close>, and \<open>get_doc_text\<close> the statements that compute \<^verbatim>\<open>doc\<close>.
\<close>

function read_line_loop :: "int \<Rightarrow> int \<Rightarrow> ustr \<Rightarrow> fhandle \<Rightarrow> ustr \<times> fhandle" where
  "read_line_loop line line_n doc fdoc =
     (if line < line_n
      then read_line_loop (line + 1) line_n (fst (readline fdoc)) (snd (readline fdoc))
      else (doc, fdoc))"
  by pat_completeness auto
termination
  by (relation "measure (\<lambda>(line, line_n, doc, fdoc). nat (line_n - line))") auto

declare read_line_loop.simps [simp del]

definition read_line_at :: "fhandle \<Rightarrow> int \<Rightarrow> ustr \<times> fhandle" where
  "read_line_at fdoc line_n =
     read_line_loop 0 line_n (fst (readline fdoc)) (snd (readline fdoc))"

definition get_doc_text :: "'f runtime \<Rightarrow> 'f server \<Rightarrow> ustr \<Rightarrow> exn + ustr" where
  "get_doc_text rt srv locator =
     (if str_contains (u '':line:'') locator then
        (case str_split (u '':line:'') locator of
           [file_path, line_s] \<Rightarrow>
             (case py_int line_s of
                Inl e \<Rightarrow> Inl e
              | Inr line_n \<Rightarrow>
                  (case open_text (files rt) file_path of
                     Inl e \<Rightarrow> Inl e
                   | Inr fdoc \<Rightarrow> Inr (fst (read_line_at fdoc line_n))))
         | _ \<Rightarrow> Inl ValueError)
      else if str_contains (u '':x_test:'') locator then
        (case x_test srv of
           None \<Rightarrow> Inr []
         | Some xs \<Rightarrow>
             if xs = [] then Inr []
             else (case py_nth (str_split (u '':x_test:'') locator) 1 of
                     Inl e \<Rightarrow> Inl e
                   | Inr idoc_s \<Rightarrow>
                       (case py_int idoc_s of
                          Inl e \<Rightarrow> Inl e
                        | Inr idoc \<Rightarrow> py_index xs idoc)))
      else read_text (files rt) locator)"

definition do_get_doc ::
  "'f runtime \<Rightarrow> 'f server \<Rightarrow> io \<Rightarrow> ustr \<Rightarrow> (exn + unit) \<times> io" where
  "do_get_doc rt srv s locator =
     (case get_doc_text rt srv locator of
        Inl e \<Rightarrow> (Inl e, s)
      | Inr doc \<Rightarrow>
          (case send_as_json (float_repr rt) s (JDict [(KStr (u ''content''), JStr doc)]) of
             (Inl e, s1) \<Rightarrow> (Inl e, s1)
           | (Inr _, s1) \<Rightarrow> (Inr (), print s1 (Info (u ''sending document content...'')))))"

text \<open>
  \<^verbatim>\<open>
  def __handle_request__(sock):
      data = sock.recv(RECV_BUFFER)
      if not data:
          return
      data = data.decode()
      rsc_path = get_http_path(data)
      if data.startswith("POST"):
          Print.show("\tPOST %s" % rsc_path)
          method = rsc_path[1:]
          cont_length = get_http_contlength(data)
          body = Server.__recvall_body__(sock, data, cont_length)
          if method == "ack":
              Server.__do_ack__(sock)
          elif method == "classify":
              Server.__do_classify__(sock, body)
          elif method == "get_info":
              Server.__do_get_info__(sock)
          elif method == "get_doc":
              Server.__do_get_doc__(sock, body)
      else:  # if GET
          Print.show("\tGET %s " % rsc_path, False)
          local_path, ext = parse_and_sanitize(rsc_path)
          if path.exists(local_path):
              with open(local_path, 'rb') as fresponse:
                  http_body = fresponse.read()
                  http_header = HTTP_RESPONSE % (
                      content_type(ext), len(http_body)
                  )
                  sock.send(http_header.encode())
                  sock.send(http_body)
                  Print.info("200 OK")
          else:
              sock.send(HTTP_404)
              Print.info("404 Not Found")
  \<close>
  The result \<open>None\<close> means that the handler never returns.
\<close>

definition dispatch_post ::
  "'f runtime \<Rightarrow> 'f server \<Rightarrow> io \<Rightarrow> ustr \<Rightarrow> ustr \<Rightarrow> (exn + unit) \<times> io" where
  "dispatch_post rt srv s method body =
     (if method = u ''ack'' then do_ack s
      else if method = u ''classify'' then do_classify rt srv s body
      else if method = u ''get_info'' then do_get_info rt srv s
      else if method = u ''get_doc'' then do_get_doc rt srv s body
      else (Inr (), s))"

definition handle_post ::
  "'f runtime \<Rightarrow> 'f server \<Rightarrow> io \<Rightarrow> ustr \<Rightarrow> ustr \<Rightarrow> ((exn + unit) \<times> io) option" where
  "handle_post rt srv s data rsc_path =
     (let s1 = print s (Show ([9] @ u ''POST '' @ rsc_path));
          method = drop 1 rsc_path;
          cont_length = get_http_contlength data
      in case recvall_body rt s1 data cont_length of
           None \<Rightarrow> None
         | Some (Inl e, s2) \<Rightarrow> Some (Inl e, s2)
         | Some (Inr body, s2) \<Rightarrow> Some (dispatch_post rt srv s2 method body))"

definition handle_get :: "'f runtime \<Rightarrow> io \<Rightarrow> ustr \<Rightarrow> (exn + unit) \<times> io" where
  "handle_get rt s rsc_path =
     (let s1 = print s (Show ([9] @ u ''GET '' @ rsc_path @ u '' ''));
          (local_path, ext) = parse_and_sanitize (module_dir rt) rsc_path
      in if path_exists (files rt) local_path then
           (case read_bytes (files rt) local_path of
              Inl e \<Rightarrow> (Inl e, s1)
            | Inr http_body \<Rightarrow>
                (case utf8_encode (HTTP_RESPONSE (content_type ext) (length http_body)) of
                   Inl e \<Rightarrow> (Inl e, s1)
                 | Inr hb \<Rightarrow>
                     (Inr (), print (send (send s1 hb) http_body) (Info (u ''200 OK'')))))
         else (Inr (), print (send s1 HTTP_404) (Info (u ''404 Not Found''))))"

definition handle_request ::
  "'f runtime \<Rightarrow> 'f server \<Rightarrow> io \<Rightarrow> ((exn + unit) \<times> io) option" where
  "handle_request rt srv s =
     (let (data_b, s1) = recv s RECV_BUFFER
      in if data_b = [] then Some (Inr (), s1)
         else (case utf8_decode data_b of
                 Inl e \<Rightarrow> Some (Inl e, s1)
               | Inr data \<Rightarrow>
                   (case get_http_path data of
                      Inl e \<Rightarrow> Some (Inl e, s1)
                    | Inr rsc_path \<Rightarrow>
                        if prefix (u ''POST'') data then handle_post rt srv s1 data rsc_path
                        else Some (handle_get rt s1 rsc_path))))"

section \<open>Test corpus index\<close>

definition doc_name :: "nat \<Rightarrow> ustr" where
  "doc_name i = u ''doc_'' @ str_of_nat i"

definition x_test_locator :: "nat \<Rightarrow> ustr" where
  "x_test_locator i = u '':x_test:'' @ str_of_nat i"

definition line_locator :: "ustr \<Rightarrow> nat \<Rightarrow> ustr" where
  "line_locator file_path i = file_path @ u '':line:'' @ str_of_nat i"

text \<open>The entry after \<^verbatim>\<open>d[cat]["path"] = []; d[cat]["file"] = []; d[cat]["clf_result"] = []\<close>.\<close>

definition new_entry :: entry where
  "new_entry = \<lparr>keys = [Path, FileName, ClfResult], path = [], file = [], clf_result = []\<rparr>"

text \<open>\<^verbatim>\<open>r[0][0] if r[0][1] else unkwon_cat_i\<close>\<close>

definition top_label :: "('f \<Rightarrow> bool) \<Rightarrow> int \<Rightarrow> (int \<times> 'f) list \<Rightarrow> exn + int" where
  "top_label truthy unkwon_cat_i r =
     (case r of
        [] \<Rightarrow> Inl IndexError
      | (c, v) # _ \<Rightarrow> Inr (if truthy v then c else unkwon_cat_i))"

definition unknown_index :: "'f classifier \<Rightarrow> int" where
  "unknown_index c = int (length (get_categories c))"

text \<open>
  \<^verbatim>\<open>
  def set_testset(x_test, y_test):
      Server.__clear_testset__()
      Server.__x_test__ = x_test

      classify = Server.__clf__.classify
      unkwon_cat_i = len(Server.__clf__.get_categories())
      for cat in set(y_test):
          Server.__docs__[cat]["path"] = []
          Server.__docs__[cat]["file"] = []
          Server.__docs__[cat]["clf_result"] = []

      for idoc, doc in enumerate(x_test):
          cat = y_test[idoc]
          doc_name = "doc_%d" % idoc

          Server.__docs__[cat]["file"].append(doc_name)
          Server.__docs__[cat]["path"].append(":x_test:%d" % idoc)

          r = classify(doc)
          Server.__docs__[cat]["clf_result"].append(
              r[0][0] if r[0][1] else unkwon_cat_i
          )

      Print.info("%d categories found" % len(Server.__docs__))
      return len(Server.__docs__) > 0
  \<close>
  The order in which Python iterates over \<^verbatim>\<open>set(y_test)\<close> is not determined;
  the model takes the labels in the order of their last occurrences (\<open>remdups\<close>).
  No property below depends on the order of the categories. In the second loop \<^verbatim>\<open>cat\<close> is
  an element of \<^verbatim>\<open>y_test\<close>, so its entry exists. A result carries the state in
  which the function returns or raises.
\<close>

fun set_testset_loop ::
  "'f runtime \<Rightarrow> 'f classifier \<Rightarrow> ustr list \<Rightarrow> nat \<Rightarrow> ustr list \<Rightarrow> docs \<Rightarrow> (exn + unit) \<times> docs"
where
  "set_testset_loop rt c y_test idoc [] ds = (Inr (), ds)"
| "set_testset_loop rt c y_test idoc (doc # rest_docs) ds =
     (case py_nth y_test idoc of
        Inl e \<Rightarrow> (Inl e, ds)
      | Inr cat \<Rightarrow>
          (let ds1 = dict_upd cat (\<lambda>e. e\<lparr>file := file e @ [doc_name idoc]\<rparr>) ds;
               ds2 = dict_upd cat (\<lambda>e. e\<lparr>path := path e @ [x_test_locator idoc]\<rparr>) ds1
           in case classify c doc of
                Inl e \<Rightarrow> (Inl e, ds2)
              | Inr r \<Rightarrow>
                  (case top_label (float_bool rt) (unknown_index c) r of
                     Inl e \<Rightarrow> (Inl e, ds2)
                   | Inr l \<Rightarrow>
                       set_testset_loop rt c y_test (Suc idoc) rest_docs
                         (dict_upd cat (\<lambda>e. e\<lparr>clf_result := clf_result e @ [l]\<rparr>) ds2))))"

definition categories_found :: "docs \<Rightarrow> log_entry" where
  "categories_found ds = Info (str_of_nat (length ds) @ u '' categories found'')"

definition set_testset ::
  "'f runtime \<Rightarrow> 'f server \<Rightarrow> log_entry list \<Rightarrow> ustr list \<Rightarrow> ustr list \<Rightarrow>
   (exn + bool) \<times> 'f server \<times> log_entry list" where
  "set_testset rt srv lg x y =
     (let srv1 = (clear_testset srv)\<lparr>x_test := Some x\<rparr>
      in case clf srv1 of
           None \<Rightarrow> (Inl AttributeError, srv1, lg)
         | Some c \<Rightarrow>
             (case set_testset_loop rt c y 0 x
                     (foldl (\<lambda>ds cat. dict_set cat new_entry ds) (docs srv1) (remdups y)) of
                (Inl e, ds) \<Rightarrow> (Inl e, srv1\<lparr>docs := ds\<rparr>, lg)
              | (Inr _, ds) \<Rightarrow>
                  (Inr (ds \<noteq> []), srv1\<lparr>docs := ds\<rparr>, lg @ [categories_found ds])))"

text \<open>
  \<^verbatim>\<open>
  def set_testset_from_files(test_path, folder_label=True):
      Print.info("reading files...")
      Server.__clear_testset__()
      classify = Server.__clf__.classify
      unkwon_cat_i = len(Server.__clf__.get_categories())
      if not folder_label:
          for file in listdir(test_path):
              file_path = path.join(test_path, file)
              if path.isfile(file_path):
                  cat = path.splitext(file)[0]
                  with open(file_path, "r", encoding=ENCODING) as fcat:
                      Server.__docs__[cat]["clf_result"] = [
                          r[0][0] if r[0][1] else unkwon_cat_i
                          for r in map(classify, tqdm(fcat.readlines(), ...))
                      ]
                      n_docs = len(Server.__docs__[cat]["clf_result"])
                      Server.__docs__[cat]["file"] = [
                          "doc_%d" % line for line in range(n_docs)
                      ]
                      Server.__docs__[cat]["path"] = [
                          "%s:line:%d" % (file_path, line) for line in range(n_docs)
                      ]
      else:
          for cat in listdir(test_path):
              cat_path = path.join(test_path, cat)
              if not path.isfile(cat_path):
                  Server.__docs__[cat]["path"] = []
                  Server.__docs__[cat]["file"] = []
                  Server.__docs__[cat]["clf_result"] = []
                  for file in tqdm(sorted(listdir(cat_path)), ...):
                      file_path = path.join(cat_path, file)
                      if path.isfile(file_path):
                          Server.__docs__[cat]["path"].append(file_path)
                          Server.__docs__[cat]["file"].append(file)
                          with open(file_path, "r", encoding=ENCODING) as fdoc:
                              r = classify(fdoc.read())
                              Server.__docs__[cat]["clf_result"].append(
                                  r[0][0] if r[0][1] else unkwon_cat_i
                              )
      Print.info("%d categories found" % len(Server.__docs__))
      return len(Server.__docs__) > 0
  \<close>
  \<open>classify_all\<close> is the list comprehension, \<open>label_files\<close> the loop of the first
  branch, \<open>folder_files\<close> and \<open>folder_cats\<close> the inner and the outer loop of the
  second.
\<close>

fun classify_all :: "'f runtime \<Rightarrow> 'f classifier \<Rightarrow> ustr list \<Rightarrow> exn + int list" where
  "classify_all rt c [] = Inr []"
| "classify_all rt c (l # ls) =
     (case classify c l of
        Inl e \<Rightarrow> Inl e
      | Inr r \<Rightarrow>
          (case top_label (float_bool rt) (unknown_index c) r of
             Inl e \<Rightarrow> Inl e
           | Inr x \<Rightarrow>
               (case classify_all rt c ls of
                  Inl e \<Rightarrow> Inl e
                | Inr xs \<Rightarrow> Inr (x # xs))))"

definition lines_entry :: "ustr \<Rightarrow> int list \<Rightarrow> entry" where
  "lines_entry file_path rs =
     \<lparr>keys = [ClfResult, FileName, Path],
      path = map (line_locator file_path) [0 ..< length rs],
      file = map doc_name [0 ..< length rs],
      clf_result = rs\<rparr>"

fun label_files ::
  "'f runtime \<Rightarrow> 'f classifier \<Rightarrow> ustr \<Rightarrow> ustr list \<Rightarrow> docs \<Rightarrow> (exn + unit) \<times> docs" where
  "label_files rt c test_path [] ds = (Inr (), ds)"
| "label_files rt c test_path (f # fs) ds =
     (let file_path = path_join test_path f
      in if path_isfile (files rt) file_path then
           (case open_text (files rt) file_path of
              Inl e \<Rightarrow> (Inl e, ds)
            | Inr fcat \<Rightarrow>
                (case classify_all rt c (rest fcat) of
                   Inl e \<Rightarrow> (Inl e, ds)
                 | Inr rs \<Rightarrow>
                     label_files rt c test_path fs
                       (dict_set (fst (path_splitext f)) (lines_entry file_path rs) ds)))
         else label_files rt c test_path fs ds)"

fun folder_files ::
  "'f runtime \<Rightarrow> 'f classifier \<Rightarrow> ustr \<Rightarrow> ustr \<Rightarrow> ustr list \<Rightarrow> docs \<Rightarrow> (exn + unit) \<times> docs"
where
  "folder_files rt c cat cat_path [] ds = (Inr (), ds)"
| "folder_files rt c cat cat_path (f # fs) ds =
     (let file_path = path_join cat_path f
      in if path_isfile (files rt) file_path then
           (let ds1 = dict_upd cat (\<lambda>e. e\<lparr>path := path e @ [file_path]\<rparr>) ds;
                ds2 = dict_upd cat (\<lambda>e. e\<lparr>file := file e @ [f]\<rparr>) ds1
            in case read_text (files rt) file_path of
                 Inl e \<Rightarrow> (Inl e, ds2)
               | Inr t \<Rightarrow>
                   (case classify c t of
                      Inl e \<Rightarrow> (Inl e, ds2)
                    | Inr r \<Rightarrow>
                        (case top_label (float_bool rt) (unknown_index c) r of
                           Inl e \<Rightarrow> (Inl e, ds2)
                         | Inr l \<Rightarrow>
                             folder_files rt c cat cat_path fs
                               (dict_upd cat (\<lambda>e. e\<lparr>clf_result := clf_result e @ [l]\<rparr>) ds2))))
         else folder_files rt c cat cat_path fs ds)"

fun folder_cats ::
  "'f runtime \<Rightarrow> 'f classifier \<Rightarrow> ustr \<Rightarrow> ustr list \<Rightarrow> docs \<Rightarrow> (exn + unit) \<times> docs" where
  "folder_cats rt c test_path [] ds = (Inr (), ds)"
| "folder_cats rt c test_path (cat # cats) ds =
     (let cat_path = path_join test_path cat
      in if path_isfile (files rt) cat_path then folder_cats rt c test_path cats ds
         else (case listdir (files rt) cat_path of
                 Inl e \<Rightarrow> (Inl e, dict_set cat new_entry ds)
               | Inr names \<Rightarrow>
                   (case folder_files rt c cat cat_path (sort names)
                           (dict_set cat new_entry ds) of
                      (Inl e, ds1) \<Rightarrow> (Inl e, ds1)
                    | (Inr _, ds1) \<Rightarrow> folder_cats rt c test_path cats ds1)))"

definition set_testset_from_files ::
  "'f runtime \<Rightarrow> 'f server \<Rightarrow> log_entry list \<Rightarrow> ustr \<Rightarrow> bool \<Rightarrow>
   (exn + bool) \<times> 'f server \<times> log_entry list" where
  "set_testset_from_files rt srv lg test_path folder_label =
     (let lg1 = lg @ [Info (u ''reading files...'')];
          srv1 = clear_testset srv
      in case clf srv1 of
           None \<Rightarrow> (Inl AttributeError, srv1, lg1)
         | Some c \<Rightarrow>
             (case listdir (files rt) test_path of
                Inl e \<Rightarrow> (Inl e, srv1, lg1)
              | Inr names \<Rightarrow>
                  (case (if folder_label then folder_cats rt c test_path names (docs srv1)
                         else label_files rt c test_path names (docs srv1)) of
                     (Inl e, ds) \<Rightarrow> (Inl e, srv1\<lparr>docs := ds\<rparr>, lg1)
                   | (Inr _, ds) \<Rightarrow>
                       (Inr (ds \<noteq> []), srv1\<lparr>docs := ds\<rparr>, lg1 @ [categories_found ds]))))"

section \<open>Connection dispatcher\<close>

text \<open>
  The state of \<^verbatim>\<open>serve\<close>: the server attributes, the output of \<^verbatim>\<open>Print\<close>, the
  local variables \<^verbatim>\<open>clients\<close> (the watched sockets, by descriptor) and
  \<^verbatim>\<open>sock_to_addr\<close>, the sockets with what arrives on them and what was sent,
  the descriptors that were closed, and the URLs given to \<^verbatim>\<open>webbrowser.open\<close>.
\<close>

record 'f sstate =
  attrs :: "'f server"
  out :: "log_entry list"
  clients :: "nat list"
  sock_to_addr :: "(nat \<times> ustr) list"
  socks :: "(nat \<times> sock) list"
  closed :: "nat list"
  browser :: "ustr list"

text \<open>
  What the environment does. \<open>Ready rs\<close> is a return of \<^verbatim>\<open>select\<close> with the
  readable sockets \<open>rs\<close>: \<open>Accept fd addr now chunks\<close> is the listening socket,
  on which \<^verbatim>\<open>accept\<close> returns a connection with descriptor \<open>fd\<close> from address
  \<open>addr\<close>, at time \<open>now\<close>, on which \<open>chunks\<close> will arrive; \<open>Request fd\<close> is the
  connection \<open>fd\<close>. \<open>Interrupt\<close> is a \<^verbatim>\<open>KeyboardInterrupt\<close> raised in \<^verbatim>\<open>select\<close>.
\<close>

datatype ready = Accept nat ustr ustr "bytes list" | Request nat

datatype event = Ready "ready list" | Interrupt

text \<open>
  How \<^verbatim>\<open>serve\<close> ends: \<open>Waiting\<close> in \<^verbatim>\<open>select\<close> when the environment does nothing
  more, \<open>Returned\<close>, \<open>Raised\<close> with an exception that leaves \<^verbatim>\<open>serve\<close>, or \<open>Hung\<close>
  in a handler that never returns.
\<close>

datatype 'f outcome =
    Waiting "'f sstate"
  | Returned "'f sstate"
  | Raised exn "'f sstate"
  | Hung "'f sstate"

definition io_of :: "'f sstate \<Rightarrow> nat \<Rightarrow> io" where
  "io_of st fd =
     (case map_of (socks st) fd of
        None \<Rightarrow> \<lparr>inbox = [], sent = [], log = out st\<rparr>
      | Some c \<Rightarrow> \<lparr>inbox = inbox c, sent = sent c, log = out st\<rparr>)"

definition store_io :: "'f sstate \<Rightarrow> nat \<Rightarrow> io \<Rightarrow> 'f sstate" where
  "store_io st fd s =
     st\<lparr>socks := dict_set fd \<lparr>inbox = inbox s, sent = sent s\<rparr> (socks st), out := log s\<rparr>"

text \<open>\<^verbatim>\<open>xs.remove(x)\<close> and \<^verbatim>\<open>del d[k]\<close>\<close>

definition list_remove :: "'a \<Rightarrow> 'a list \<Rightarrow> exn + 'a list" where
  "list_remove x xs = (if x \<in> set xs then Inr (remove1 x xs) else Inl ValueError)"

definition dict_del :: "'k \<Rightarrow> ('k \<times> 'v) list \<Rightarrow> exn + ('k \<times> 'v) list" where
  "dict_del k d =
     (if k \<in> fst ` set d then Inr (filter (\<lambda>kv. fst kv \<noteq> k) d)
      else Inl (OtherException (u ''KeyError'')))"

text \<open>
  \<^verbatim>\<open>
  def start_listening(port=0):
      server_socket = socket.socket(socket.AF_INET, socket.SOCK_STREAM)
      server_socket.bind(("0.0.0.0", port))
      server_socket.listen(128)
      Server.__server_socket__ = server_socket
      Server.__port__ = server_socket.getsockname()[1]
      Print.info("SS3 server started (listening on port %d)" % Server.__port__)
      Print.warn("Copy/paste this URL into your browser http://localhost:%d" % Server.__port__)
      Print.warn("Press Ctrl+C to stop the server\n")
      return Server.__port__
  \<close>
  \<open>listen p\<close> is what creating, binding and listening does for the requested
  port: an exception, or the descriptor of the socket and its port.
\<close>

definition start_listening ::
  "(nat \<Rightarrow> exn + nat \<times> nat) \<Rightarrow> 'f server \<Rightarrow> log_entry list \<Rightarrow> nat \<Rightarrow>
   (exn + nat) \<times> 'f server \<times> log_entry list" where
  "start_listening listen srv lg p =
     (case listen p of
        Inl e \<Rightarrow> (Inl e, srv, lg)
      | Inr (fd, p') \<Rightarrow>
          (Inr p', srv\<lparr>server_socket := Some fd, port := p'\<rparr>,
           lg @ [Info (u ''SS3 server started (listening on port '' @ str_of_nat p' @ u '')''),
                 Warn (u ''Copy/paste this URL into your browser http://localhost:'' @
                       str_of_nat p'),
                 Warn (u ''Press Ctrl+C to stop the server'' @ [10])]))"

text \<open>
  \<^verbatim>\<open>
          try:
              while True:
                  read_socks, write_socks, error_socks = select(clients, [], [])
                  for sock in read_socks:
                      if sock is server_socket:
                          sockfd, addr = server_socket.accept()
                          clients.append(sockfd)
                          sock_to_addr[sockfd.fileno()] = addr[0]
                          Print.show(
                              Print.style.green("[ %s : %s ]")
                              % (addr[0], datetime.now())
                          )
                      else:
                          Server.__handle_request__(sock)
                          clients.remove(sock)
                          del sock_to_addr[sock.fileno()]
                          sock.close()
          except KeyboardInterrupt:
              Print.info("closing server...")
              server_socket.close()
              Server.__server_socket__ = None
  \<close>
  \<open>serve_ready\<close> is the \<^verbatim>\<open>for\<close> loop; its result \<open>None\<close> means that a handler
  never returns. \<open>serve_loop\<close> is the \<^verbatim>\<open>try\<close> statement, run on the events of the
  environment.
\<close>

fun serve_ready ::
  "'f runtime \<Rightarrow> 'f sstate \<Rightarrow> ready list \<Rightarrow> (exn + unit) option \<times> 'f sstate" where
  "serve_ready rt st [] = (Some (Inr ()), st)"
| "serve_ready rt st (Accept fd addr now chunks # rs) =
     serve_ready rt
       (st\<lparr>clients := clients st @ [fd],
           sock_to_addr := dict_set fd addr (sock_to_addr st),
           socks := dict_set fd \<lparr>inbox = chunks, sent = []\<rparr> (socks st),
           out := out st @ [Show (u ''[ '' @ addr @ u '' : '' @ now @ u '' ]'')]\<rparr>) rs"
| "serve_ready rt st (Request fd # rs) =
     (case handle_request rt (attrs st) (io_of st fd) of
        None \<Rightarrow> (None, st)
      | Some (Inl e, s') \<Rightarrow> (Some (Inl e), store_io st fd s')
      | Some (Inr _, s') \<Rightarrow>
          (let st1 = store_io st fd s'
           in case list_remove fd (clients st1) of
                Inl e \<Rightarrow> (Some (Inl e), st1)
              | Inr cl \<Rightarrow>
                  (case dict_del fd (sock_to_addr st1) of
                     Inl e \<Rightarrow> (Some (Inl e), st1\<lparr>clients := cl\<rparr>)
                   | Inr sa \<Rightarrow>
                       serve_ready rt
                         (st1\<lparr>clients := cl, sock_to_addr := sa, closed := closed st1 @ [fd]\<rparr>)
                         rs)))"

definition on_interrupt :: "'f sstate \<Rightarrow> 'f sstate" where
  "on_interrupt st =
     st\<lparr>out := out st @ [Info (u ''closing server...'')],
        closed := closed st @ (case server_socket (attrs st) of None \<Rightarrow> [] | Some fd \<Rightarrow> [fd]),
        attrs := (attrs st)\<lparr>server_socket := None\<rparr>\<rparr>"

fun serve_loop :: "'f runtime \<Rightarrow> 'f sstate \<Rightarrow> event list \<Rightarrow> 'f outcome" where
  "serve_loop rt st [] = Waiting st"
| "serve_loop rt st (Interrupt # evs) = Returned (on_interrupt st)"
| "serve_loop rt st (Ready rs # evs) =
     (case serve_ready rt st rs of
        (None, st') \<Rightarrow> Hung st'
      | (Some (Inl e), st') \<Rightarrow>
          if e = KeyboardInterrupt then Returned (on_interrupt st') else Raised e st'
      | (Some (Inr _), st') \<Rightarrow> serve_loop rt st' evs)"

text \<open>
  \<^verbatim>\<open>
  def serve(clf=None, x_test=None, y_test=None, port=0, browser=True):
      Server.__clf__ = clf or Server.__clf__
      if not Server.__clf__:
          Print.error("a model must be given before serving")
          return
      if Server.__server_socket__ is None:
          Server.start_listening(port)
      if x_test:
          if y_test and len(y_test) == len(x_test):
              Server.set_testset(x_test, y_test)
          else:
              Print.error("y_test must have the same length as x_test")
              return
      server_socket = Server.__server_socket__
      clients = [server_socket]
      sock_to_addr = {}
      if browser:
          webbrowser.open("http://localhost:%d" % Server.__port__)
      Print.info("waiting for requests")
      print()
      try: ...
  \<close>
  \<open>serve_testset\<close> is the statement \<^verbatim>\<open>if x_test: ...\<close>; its result \<open>Inr False\<close>
  is the \<^verbatim>\<open>return\<close>. \<open>serve_init\<close> is the state at the start of \<^verbatim>\<open>serve\<close>.
\<close>

definition serve_testset ::
  "'f runtime \<Rightarrow> 'f server \<Rightarrow> log_entry list \<Rightarrow> ustr list option \<Rightarrow> ustr list option \<Rightarrow>
   (exn + bool) \<times> 'f server \<times> log_entry list" where
  "serve_testset rt sv lg x_arg y_arg =
     (case x_arg of
        None \<Rightarrow> (Inr True, sv, lg)
      | Some x \<Rightarrow>
          if x = [] then (Inr True, sv, lg)
          else (case y_arg of
                  None \<Rightarrow>
                    (Inr False, sv, lg @ [Error (u ''y_test must have the same length as x_test'')])
                | Some y \<Rightarrow>
                    if y \<noteq> [] \<and> length y = length x then
                      (case set_testset rt sv lg x y of
                         (Inl e, sv', lg') \<Rightarrow> (Inl e, sv', lg')
                       | (Inr _, sv', lg') \<Rightarrow> (Inr True, sv', lg'))
                    else
                      (Inr False, sv,
                       lg @ [Error (u ''y_test must have the same length as x_test'')])))"

definition serve_init :: "'f server \<Rightarrow> log_entry list \<Rightarrow> 'f sstate" where
  "serve_init sv lg =
     \<lparr>attrs = sv, out = lg, clients = [], sock_to_addr = [], socks = [], closed = [],
      browser = []\<rparr>"

definition serve ::
  "'f runtime \<Rightarrow> (nat \<Rightarrow> exn + nat \<times> nat) \<Rightarrow> event list \<Rightarrow> 'f server \<Rightarrow> log_entry list \<Rightarrow>
   'f classifier option \<Rightarrow> ustr list option \<Rightarrow> ustr list option \<Rightarrow> nat \<Rightarrow> bool \<Rightarrow> 'f outcome"
where
  "serve rt listen evs sv lg clf_arg x_arg y_arg port_arg browser_arg =
     (let sv1 = sv\<lparr>clf := (case clf_arg of Some c \<Rightarrow> Some c | None \<Rightarrow> clf sv)\<rparr>
      in case clf sv1 of
           None \<Rightarrow>
             Returned (serve_init sv1 (lg @ [Error (u ''a model must be given before serving'')]))
         | Some _ \<Rightarrow>
             (case (case server_socket sv1 of
                      None \<Rightarrow> start_listening listen sv1 lg port_arg
                    | Some _ \<Rightarrow> (Inr (port sv1), sv1, lg)) of
                (Inl e, sv2, lg2) \<Rightarrow> Raised e (serve_init sv2 lg2)
              | (Inr _, sv2, lg2) \<Rightarrow>
                  (case serve_testset rt sv2 lg2 x_arg y_arg of
                     (Inl e, sv3, lg3) \<Rightarrow> Raised e (serve_init sv3 lg3)
                   | (Inr False, sv3, lg3) \<Rightarrow> Returned (serve_init sv3 lg3)
                   | (Inr True, sv3, lg3) \<Rightarrow>
                       serve_loop rt
                         ((serve_init sv3 (lg3 @ [Info (u ''waiting for requests'')]))
                            \<lparr>clients := (case server_socket sv3 of None \<Rightarrow> [] | Some fd \<Rightarrow> [fd]),
                             browser := (if browser_arg
                                         then [u ''http://localhost:'' @ str_of_nat (port sv3)]
                                         else [])\<rparr>)
                         evs)))"

section \<open>Example inputs\<close>

text \<open>
  A small runtime, classifier and file system on which the theorems below are
  instantiated. The confidence values are tenths, written as natural numbers.
\<close>

definition ex_float_repr :: "nat \<Rightarrow> ustr" where
  "ex_float_repr n = str_of_nat (n div 10) @ u ''.'' @ str_of_nat (n mod 10)"

definition ex_classify :: "ustr \<Rightarrow> exn + (int \<times> nat) list" where
  "ex_classify d =
     (if d = [] then Inl (OtherException (u ''empty document''))
      else Inr [(int (length d mod 2), length d mod 3), (1 - int (length d mod 2), 0)])"

definition ex_clf :: "nat classifier" where
  "ex_clf =
     \<lparr>classify = ex_classify,
      classify_json =
        (\<lambda>d. case ex_classify d of
                Inl e \<Rightarrow> Inl e
              | Inr r \<Rightarrow> Inr (JList (map (\<lambda>(c, v). JList [JInt c, JFloat v]) r))),
      get_name = u ''demo'',
      get_hyperparameters = JDict [(KStr (u ''s''), JFloat 5)],
      get_categories = [u ''neg'', u ''pos'']\<rparr>"

definition ex_fs :: filesystem where
  "ex_fs =
     map_of
       [(u ''/t'', Dir [u ''b.txt'', u ''A'']),
        (u ''/t/b.txt'', File (''one'' @ [CHR 0x0A] @ ''three'' @ [CHR 0x0A] @ ''x'')),
        (u ''/t/A'', Dir [u ''n'', u ''m'']),
        (u ''/t/A/m'', File ''ab''),
        (u ''/t/A/n'', File ''abc'')]"

text \<open>A decoder of \<^verbatim>\<open>%XX\<close> escapes below \<^verbatim>\<open>%80\<close> with decimal digits only, which
  is what \<^verbatim>\<open>unquote\<close> does on such a text.\<close>

fun ex_unquote :: "ustr \<Rightarrow> ustr" where
  "ex_unquote (p # a # b # r) =
     (if p = 37 \<and> 48 \<le> a \<and> a < 56 \<and> 48 \<le> b \<and> b \<le> 57
      then ((a - 48) * 16 + (b - 48)) # ex_unquote r
      else p # ex_unquote (a # b # r))"
| "ex_unquote r = r"

definition ex_rt :: "nat runtime" where
  "ex_rt =
     \<lparr>float_repr = ex_float_repr, float_bool = (\<lambda>n. n \<noteq> 0), url_decode = ex_unquote,
      module_dir = u ''/opt/pyss3'', files = ex_fs\<rparr>"

definition ex_srv :: "nat server" where
  "ex_srv = \<lparr>clf = Some ex_clf, port = 0, server_socket = None, docs = [], x_test = None\<rparr>"

definition ex_io :: "bytes list \<Rightarrow> io" where
  "ex_io chunks = \<lparr>inbox = chunks, sent = [], log = []\<rparr>"

text \<open>The bytes of an ASCII text in which \<^verbatim>\<open>|\<close> stands for CR LF.\<close>

definition crlf :: "string \<Rightarrow> bytes" where
  "crlf s = concat (map (\<lambda>c. if c = CHR ''|'' then [CHR 0x0D, CHR 0x0A] else [c]) s)"





text \<open>The request line and header of a \<^verbatim>\<open>POST\<close> request that declares a body of
  six bytes.\<close>

definition ex_head :: ustr where
  "ex_head = u ''POST /x HTTP/1.1'' @ CRLF @ u ''Content-length: 6''"

text \<open>A listening socket with descriptor 3, and a state of \<^verbatim>\<open>serve\<close> in which the
  connection 4 has sent a request line without a path.\<close>

definition ex_listen :: "nat \<Rightarrow> exn + nat \<times> nat" where
  "ex_listen p = Inr (3, if p = 0 then 8080 else p)"

definition ex_st :: "nat sstate" where
  "ex_st =
     \<lparr>attrs = ex_srv\<lparr>server_socket := Some 3, port := 8080\<rparr>, out = [],
      clients = [3, 4], sock_to_addr = [(4, u ''10.0.0.1'')],
      socks = [(4, \<lparr>inbox = [''garbage''], sent = []\<rparr>)], closed = [], browser = []\<rparr>"

section \<open>Invariant of the test corpus index\<close>

text \<open>The label that the builders store for a document.\<close>

definition doc_label :: "'f runtime \<Rightarrow> 'f classifier \<Rightarrow> ustr \<Rightarrow> exn + int" where
  "doc_label rt c doc =
     (case classify c doc of
        Inl e \<Rightarrow> Inl e
      | Inr r \<Rightarrow> top_label (float_bool rt) (unknown_index c) r)"

text \<open>
  The three lists of an entry have the same length, and at every index the
  locator, the name and the classification result are related by \<open>R\<close>.
\<close>

definition entry_inv :: "(ustr \<Rightarrow> ustr \<Rightarrow> int \<Rightarrow> bool) \<Rightarrow> entry \<Rightarrow> bool" where
  "entry_inv R e =
     (length (path e) = length (file e) \<and> length (file e) = length (clf_result e) \<and>
      list_all (\<lambda>i. R (path e ! i) (file e ! i) (clf_result e ! i)) [0 ..< length (file e)])"

definition docs_inv :: "(ustr \<Rightarrow> ustr \<Rightarrow> ustr \<Rightarrow> int \<Rightarrow> bool) \<Rightarrow> docs \<Rightarrow> bool" where
  "docs_inv R ds = list_all (\<lambda>(cat, e). entry_inv (R cat) e) ds"

text \<open>
  What corresponds in the three kinds of test set: document \<open>k\<close> of \<^verbatim>\<open>x_test\<close>
  with the label \<open>cat\<close>; the file \<open>f\<close> of the folder \<open>cat\<close>; line \<open>i\<close> of a file
  whose name without extension is \<open>cat\<close>. In each case \<open>l\<close> is the label of that
  document.
\<close>

definition in_memory ::
  "'f runtime \<Rightarrow> 'f classifier \<Rightarrow> ustr list \<Rightarrow> ustr list \<Rightarrow> ustr \<Rightarrow> ustr \<Rightarrow> ustr \<Rightarrow> int \<Rightarrow> bool" where
  "in_memory rt c x y cat p f l =
     list_ex (\<lambda>k. k < length y \<and> y ! k = cat \<and> p = x_test_locator k \<and> f = doc_name k \<and>
                   doc_label rt c (x ! k) = Inr l) [0 ..< length x]"

definition in_folder ::
  "'f runtime \<Rightarrow> 'f classifier \<Rightarrow> ustr \<Rightarrow> ustr \<Rightarrow> ustr \<Rightarrow> ustr \<Rightarrow> int \<Rightarrow> bool" where
  "in_folder rt c test_path cat p f l =
     (p = path_join (path_join test_path cat) f \<and>
      (case read_text (files rt) p of Inl e \<Rightarrow> False | Inr t \<Rightarrow> doc_label rt c t = Inr l))"

definition in_lines ::
  "'f runtime \<Rightarrow> 'f classifier \<Rightarrow> ustr \<Rightarrow> ustr \<Rightarrow> ustr \<Rightarrow> ustr \<Rightarrow> int \<Rightarrow> bool" where
  "in_lines rt c test_path cat p f l =
     (case listdir (files rt) test_path of
        Inl e \<Rightarrow> False
      | Inr names \<Rightarrow>
          list_ex (\<lambda>name. fst (path_splitext name) = cat \<and>
            (case open_text (files rt) (path_join test_path name) of
               Inl e \<Rightarrow> False
             | Inr h \<Rightarrow>
                 list_ex (\<lambda>i. p = line_locator (path_join test_path name) i \<and> f = doc_name i \<and>
                               doc_label rt c (rest h ! i) = Inr l) [0 ..< length (rest h)]))
            names)"

text \<open>The indexes that the three builders produce on the example inputs.\<close>

definition ex_docs_memory :: docs where
  "ex_docs_memory =
     [(u ''A'', \<lparr>keys = [Path, FileName, ClfResult], path = [x_test_locator 0],
                file = [doc_name 0], clf_result = [0]\<rparr>),
      (u ''B'', \<lparr>keys = [Path, FileName, ClfResult], path = [x_test_locator (Suc 0)],
                file = [doc_name (Suc 0)], clf_result = [2]\<rparr>)]"

definition ex_docs_folder :: docs where
  "ex_docs_folder =
     [(u ''A'', \<lparr>keys = [Path, FileName, ClfResult], path = [u ''/t/A/m'', u ''/t/A/n''],
                file = [u ''m'', u ''n''], clf_result = [0, 2]\<rparr>)]"

definition ex_docs_lines :: docs where
  "ex_docs_lines =
     [(u ''b'', \<lparr>keys = [ClfResult, FileName, Path],
                path = [line_locator (u ''/t/b.txt'') 0, line_locator (u ''/t/b.txt'') (Suc 0),
                        line_locator (u ''/t/b.txt'') (Suc (Suc 0))],
                file = [doc_name 0, doc_name (Suc 0), doc_name (Suc (Suc 0))],
                clf_result = [0, 2, 1]\<rparr>)]"

section \<open>Properties\<close>

lemma length_BASE_PATH: "27 \<le> length (BASE_PATH mdir)"
  by (simp add: BASE_PATH_def path_join_def u_def)

text \<open>
  C1. The claim is that the path returned by \<open>parse_and_sanitize\<close> is rooted under
  \<open>BASE_PATH\<close> for every request path. The code does not achieve this: for
  the request path \<^verbatim>\<open>///etc/passwd\<close> the directory part \<^verbatim>\<open>///etc\<close> keeps a double
  slash after the single-pass replacement of \<^verbatim>\<open>//\<close>, one slash survives the
  \<^verbatim>\<open>[1:]\<close>, and the final join with an absolute path discards \<open>BASE_PATH\<close>:
  the resolver returns \<^verbatim>\<open>/etc/passwd\<close>, whatever the base directory is.
\<close>

theorem parse_and_sanitize_escapes_base:
  "fst (parse_and_sanitize mdir (u ''///etc/passwd'')) = u ''/etc/passwd'' \<and>
   \<not> prefix (BASE_PATH mdir) (fst (parse_and_sanitize mdir (u ''///etc/passwd'')))"
proof -
  have split: "path_split (u ''///etc/passwd'') = (u ''///etc'', u ''passwd'')"
    by (simp add: path_split_def rfind_def rstrip_def SEP_def u_def)
  have r1: "str_replace (u ''.'') [] (u ''///etc'') = u ''///etc''"
    by (simp add: str_replace.simps u_def)
  have r2: "str_replace (u ''//'') (u ''/'') (u ''///etc'') = u ''//etc''"
    by (simp add: str_replace.simps u_def)
  have res: "fst (parse_and_sanitize mdir (u ''///etc/passwd'')) = u ''/etc/passwd''"
    by (simp add: parse_and_sanitize_def split r1 r2)
       (simp add: path_join_def SEP_def u_def Let_def)
  have "length (u ''/etc/passwd'') = 11"
    by (simp add: u_def)
  with length_BASE_PATH [of mdir]
  have "\<not> prefix (BASE_PATH mdir) (u ''/etc/passwd'')"
    by (auto dest!: prefix_length_le)
  with res show ?thesis by simp
qed

subsection \<open>The JSON response\<close>

lemma ascii_Nil [simp]: "ascii []"
  by (simp add: ascii_def)

lemma ascii_Cons [simp]: "ascii (c # cs) = (c < 128 \<and> ascii cs)"
  by (simp add: ascii_def)

lemma ascii_append [simp]: "ascii (xs @ ys) = (ascii xs \<and> ascii ys)"
  by (simp add: ascii_def)

lemma ascii_concat: "(\<And>x. x \<in> set xs \<Longrightarrow> ascii x) \<Longrightarrow> ascii (concat xs)"
  by (induction xs) auto

lemma ascii_str_join: "ascii sep \<Longrightarrow> (\<And>x. x \<in> set xs \<Longrightarrow> ascii x) \<Longrightarrow> ascii (str_join sep xs)"
  by (induction sep xs rule: str_join.induct) auto

lemma ascii_str_of_nat: "ascii (str_of_nat n)"
proof (induction n rule: str_of_nat.induct)
  case (1 n)
  show ?case
  proof (cases "n < 10")
    case True
    then show ?thesis by (subst str_of_nat.simps) simp
  next
    case False
    have "n mod 10 < 10" by simp
    then have "48 + n mod 10 < 128" by linarith
    with False 1 show ?thesis by (subst str_of_nat.simps) simp
  qed
qed

lemma ascii_str_of_int: "ascii (str_of_int i)"
  by (simp add: str_of_int_def ascii_str_of_nat)

lemma hex_digit_ascii: "d < 16 \<Longrightarrow> hex_digit d < 128"
  by (simp add: hex_digit_def)

lemma ascii_hex_of_nat: "ascii (hex_of_nat n)"
proof (induction n rule: hex_of_nat.induct)
  case (1 n)
  show ?case
  proof (cases "n < 16")
    case True
    then show ?thesis by (subst hex_of_nat.simps) (simp add: hex_digit_ascii)
  next
    case False
    have "n mod 16 < 16" by simp
    then have "hex_digit (n mod 16) < 128" by (rule hex_digit_ascii)
    with False 1 show ?thesis by (subst hex_of_nat.simps) simp
  qed
qed

lemma ascii_replicate: "c < 128 \<Longrightarrow> ascii (replicate k c)"
  by (induction k) auto

lemma ascii_format_04x: "ascii (format_04x n)"
  by (simp add: format_04x_def ascii_hex_of_nat ascii_replicate)

lemma ascii_json_escape_char: "ascii (json_escape_char c)"
  by (simp add: json_escape_char_def ascii_format_04x u_def)

lemma ascii_json_encode_str: "ascii (json_encode_str s)"
  by (auto simp: json_encode_str_def intro!: ascii_concat ascii_json_escape_char)

lemma ascii_json_dumps:
  assumes fr_ascii: "\<And>x. ascii (fr x)"
  shows "ascii (json_dumps fr v)"
proof (induction v)
  case (JList xs)
  then show ?case by (auto simp: u_def intro!: ascii_str_join)
next
  case (JDict kvs)
  have "ascii x" if "x \<in> set (map (\<lambda>(k, v). json_encode_str (json_key_str fr k) @ u '': '' @
                        json_dumps fr v) kvs)" for x
  proof -
    from that obtain k v where kv: "(k, v) \<in> set kvs"
      and x: "x = json_encode_str (json_key_str fr k) @ u '': '' @ json_dumps fr v"
      by auto
    from kv have "v \<in> Basic_BNFs.snds (k, v)" by simp
    with JDict kv have "ascii (json_dumps fr v)" by blast
    then show ?thesis by (simp add: x ascii_json_encode_str u_def)
  qed
  then show ?case by (auto simp: u_def simp del: set_map intro!: ascii_str_join)
qed (simp_all add: u_def ascii_str_of_int ascii_json_encode_str fr_ascii)

lemma utf8_encode_ascii: "ascii s \<Longrightarrow> utf8_encode s = Inr (map char_of s)"
  by (induction s) (simp_all add: utf8_encode_cp_def)

lemma content_type_json: "content_type (u ''json'') = u ''application/json''"
  by (simp add: content_type_def CONTET_TYPE_def u_def)

lemma ascii_HTTP_RESPONSE: "ascii ct \<Longrightarrow> ascii (HTTP_RESPONSE ct n)"
  by (simp add: HTTP_RESPONSE_def CRLF_def ascii_str_of_nat u_def)

text \<open>
  C8. For every JSON value, \<open>send_as_json\<close> raises nothing and makes exactly two
  \<^verbatim>\<open>send\<close> calls: the header with status 200, \<^verbatim>\<open>Connection: close\<close>, the
  wildcard CORS origin, the JSON content type and a \<^verbatim>\<open>Content-length\<close> that is
  the number of bytes of the UTF-8 encoding of the JSON text, and then that
  encoding. The header is computed from the number of characters of the text;
  the two agree because \<^verbatim>\<open>json.dumps\<close> escapes every character outside ASCII.
  The \<^verbatim>\<open>repr\<close> of a float, a parameter here, is ASCII in Python.
\<close>

theorem send_as_json_content_length:
  assumes "\<And>x. ascii (fr x)"
  shows "\<exists>body. utf8_encode (json_dumps fr v) = Inr body \<and>
     send_as_json fr s v =
       (Inr (),
        s\<lparr>sent := sent s @
          [map char_of
             (u ''HTTP/1.1 200 OK'' @ CRLF @
              u ''Connection: close'' @ CRLF @
              u ''Access-Control-Allow-Origin: *'' @ CRLF @
              u ''Server: SS3'' @ CRLF @
              u ''Content-type: application/json'' @ CRLF @
              u ''Content-length: '' @ str_of_nat (length body) @ CRLF @ CRLF),
           body]\<rparr>)"
proof -
  let ?data = "json_dumps fr v"
  have a: "ascii ?data" using assms by (rule ascii_json_dumps)
  then have body: "utf8_encode ?data = Inr (map char_of ?data)"
    by (rule utf8_encode_ascii)
  have "ascii (HTTP_RESPONSE (u ''application/json'') (length ?data))"
    by (rule ascii_HTTP_RESPONSE) (simp add: u_def)
  then have hdr: "utf8_encode (HTTP_RESPONSE (u ''application/json'') (length ?data)) =
      Inr (map char_of (HTTP_RESPONSE (u ''application/json'') (length ?data)))"
    by (rule utf8_encode_ascii)
  show ?thesis
    by (simp add: body send_as_json_def Let_def content_type_json hdr send_def)
       (simp add: HTTP_RESPONSE_def u_def)
qed

theorem send_as_json_content_length_witness:
  "(\<forall>x::unit. ascii ((\<lambda>_. u ''0.5'') x)) \<and>
   (\<exists>body. length body = 23 \<and>
     send_as_json (\<lambda>_::unit. u ''0.5'') \<lparr>inbox = [], sent = [], log = []\<rparr>
       (JDict [(KStr (u ''content''), JStr [233, 10])]) =
     (Inr (),
      \<lparr>inbox = [], sent =
          [map char_of
             (u ''HTTP/1.1 200 OK'' @ CRLF @
              u ''Connection: close'' @ CRLF @
              u ''Access-Control-Allow-Origin: *'' @ CRLF @
              u ''Server: SS3'' @ CRLF @
              u ''Content-type: application/json'' @ CRLF @
              u ''Content-length: 23'' @ CRLF @ CRLF),
           body], log = []\<rparr>))"
proof -
  have h: "format_04x 233 = u ''00e9''"
    by (simp add: format_04x_def hex_of_nat.simps hex_digit_def u_def numeral_2_eq_2)
  have d: "json_dumps (\<lambda>_::unit. u ''0.5'') (JDict [(KStr (u ''content''), JStr [233, 10])]) =
     u ''{'' @ [34] @ u ''content'' @ [34] @ u '': '' @ [34, 92] @ u ''u00e9'' @ [92] @ u ''n'' @ [34] @ u ''}''"
    by (simp add: json_encode_str_def json_key_str_def json_escape_char_def h u_def)
  have n: "str_of_nat 23 = u ''23''"
    by (simp add: str_of_nat.simps u_def)
  have a: "\<forall>x::unit. ascii ((\<lambda>_. u ''0.5'') x)"
    by (simp add: u_def)
  then obtain body where
    b: "utf8_encode (json_dumps (\<lambda>_::unit. u ''0.5'')
          (JDict [(KStr (u ''content''), JStr [233, 10])])) = Inr body" and
    s: "send_as_json (\<lambda>_::unit. u ''0.5'') \<lparr>inbox = [], sent = [], log = []\<rparr>
          (JDict [(KStr (u ''content''), JStr [233, 10])]) =
        (Inr (),
         \<lparr>inbox = [], sent = [], log = []\<rparr>\<lparr>sent := sent \<lparr>inbox = [], sent = [], log = []\<rparr> @
          [map char_of
             (u ''HTTP/1.1 200 OK'' @ CRLF @
              u ''Connection: close'' @ CRLF @
              u ''Access-Control-Allow-Origin: *'' @ CRLF @
              u ''Server: SS3'' @ CRLF @
              u ''Content-type: application/json'' @ CRLF @
              u ''Content-length: '' @ str_of_nat (length body) @ CRLF @ CRLF),
           body]\<rparr>)"
    using send_as_json_content_length [of "\<lambda>_::unit. u ''0.5''"
      "JDict [(KStr (u ''content''), JStr [233, 10])]" "\<lparr>inbox = [], sent = [], log = []\<rparr>"]
    by blast
  from b have l: "length body = 23"
    unfolding d by (auto simp add: u_def utf8_encode_cp_def)
  show ?thesis
    using a s l n by (simp add: u_def)
qed

subsection \<open>The request handlers\<close>

lemma RECV_BUFFER_pos: "0 < RECV_BUFFER"
  by (simp add: RECV_BUFFER_def)

text \<open>
  C10. If the first \<^verbatim>\<open>recv\<close> on a connection returns no data, \<open>handle_request\<close>
  returns at once and normally. Nothing is sent and nothing is printed: the
  connection is as before, except that the empty read is consumed. The handlers
  take the server attributes as an argument and return none, so these are
  unchanged.
\<close>

theorem handle_request_empty_read:
  assumes "fst (recv s RECV_BUFFER) = []"
  shows "handle_request rt sv s = Some (Inr (), s\<lparr>inbox := drop 1 (inbox s)\<rparr>)"
proof (cases "inbox s")
  case Nil
  then show ?thesis
    by (simp add: handle_request_def recv_def)
next
  case (Cons c cs)
  with assms RECV_BUFFER_pos have "c = []"
    by (auto simp: recv_def split: if_splits)
  with Cons show ?thesis
    by (simp add: handle_request_def recv_def)
qed

theorem handle_request_empty_read_witness:
  "fst (recv (ex_io []) RECV_BUFFER) = [] \<and>
   handle_request ex_rt ex_srv (ex_io []) = Some (Inr (), ex_io [])"
  using handle_request_empty_read [of "ex_io []" ex_rt ex_srv]
  by (simp add: recv_def ex_io_def)

text \<open>
  C4. If \<^verbatim>\<open>classify\<close> of the attached classifier raises an exception (a subclass
  of \<^verbatim>\<open>Exception\<close>) on the document, \<open>do_classify\<close> returns normally; it has
  printed the start of the document and the exception, and has sent nothing.
\<close>

theorem do_classify_classifier_raises:
  assumes "clf sv = Some c" and "classify_json c doc = Inl e" and "is_Exception e"
  shows "do_classify rt sv s doc =
    (Inr (), s\<lparr>log := log s @ [Show ([9] @ take 50 doc @ u ''[...]''), ErrorExn e]\<rparr>)"
  using assms by (simp add: do_classify_def do_classify_try_def print_def)

theorem do_classify_classifier_raises_witness:
  "clf ex_srv = Some ex_clf \<and>
   classify_json ex_clf [] = Inl (OtherException (u ''empty document'')) \<and>
   is_Exception (OtherException (u ''empty document'')) \<and>
   do_classify ex_rt ex_srv (ex_io []) [] =
     (Inr (),
      \<lparr>inbox = [], sent = [],
       log = [Show ([9] @ u ''[...]''), ErrorExn (OtherException (u ''empty document''))]\<rparr>)"
  using do_classify_classifier_raises [of ex_srv ex_clf "[]" "OtherException (u ''empty document'')"
      ex_rt "ex_io []"]
  by (simp add: ex_srv_def ex_clf_def ex_classify_def ex_io_def)

lemma recvall_loop_sent:
  "recvall_loop len body s = Some (r, s') \<Longrightarrow> sent s' = sent s \<and> log s' = log s"
proof (induction len body s rule: recvall_loop.induct)
  case (1 len body s)
  have rs: "sent (snd (recv s RECV_BUFFER)) = sent s \<and> log (snd (recv s RECV_BUFFER)) = log s"
    by (simp add: recv_def split: list.splits)
  from "1.prems" "1.IH" rs show ?case
    by (subst (asm) recvall_loop.simps) (auto split: if_splits sum.splits)
qed

lemma recvall_body_sent:
  "recvall_body rt s data len = Some (r, s') \<Longrightarrow> sent s' = sent s \<and> log s' = log s"
  by (auto simp: recvall_body_def split: sum.splits option.splits prod.splits
      dest: recvall_loop_sent)

text \<open>
  For a \<^verbatim>\<open>POST\<close> request with an operation that is none of the four, the handler
  does what receiving the body does and nothing else; whether it returns,
  raises or waits, it sends nothing.
\<close>

lemma handle_request_unknown_post_sends_nothing:
  assumes "fst (recv s RECV_BUFFER) \<noteq> []"
    and "utf8_decode (fst (recv s RECV_BUFFER)) = Inr data"
    and "prefix (u ''POST'') data"
    and "get_http_path data = Inr p"
    and "drop 1 p \<notin> {u ''ack'', u ''classify'', u ''get_info'', u ''get_doc''}"
  shows "handle_request rt sv s =
      (case recvall_body rt (print (snd (recv s RECV_BUFFER)) (Show ([9] @ u ''POST '' @ p))) data
              (get_http_contlength data) of
         None \<Rightarrow> None
       | Some (Inl e, s2) \<Rightarrow> Some (Inl e, s2)
       | Some (Inr body, s2) \<Rightarrow> Some (Inr (), s2)) \<and>
     (\<forall>r s'. handle_request rt sv s = Some (r, s') \<longrightarrow> sent s' = sent s)"
proof -
  let ?s1 = "print (snd (recv s RECV_BUFFER)) (Show ([9] @ u ''POST '' @ p))"
  have s1: "sent ?s1 = sent s"
    by (simp add: print_def recv_def split: list.splits)
  have "handle_request rt sv s = handle_post rt sv (snd (recv s RECV_BUFFER)) data p"
    using assms(1-4) by (simp add: handle_request_def split_beta)
  also have "\<dots> =
      (case recvall_body rt ?s1 data (get_http_contlength data) of
         None \<Rightarrow> None
       | Some (Inl e, s2) \<Rightarrow> Some (Inl e, s2)
       | Some (Inr body, s2) \<Rightarrow> Some (Inr (), s2))"
    using assms(5)
    by (simp add: handle_post_def dispatch_post_def Let_def
        split: option.split sum.split prod.split)
  finally have eq: "handle_request rt sv s =
      (case recvall_body rt ?s1 data (get_http_contlength data) of
         None \<Rightarrow> None
       | Some (Inl e, s2) \<Rightarrow> Some (Inl e, s2)
       | Some (Inr body, s2) \<Rightarrow> Some (Inr (), s2))" .
  have "sent s' = sent s" if "handle_request rt sv s = Some (r, s')" for r s'
  proof -
    from that eq obtain r' where "recvall_body rt ?s1 data (get_http_contlength data) = Some (r', s')"
      by (auto split: option.splits sum.splits prod.splits)
    then have "sent s' = sent ?s1" by (auto dest: recvall_body_sent)
    with s1 show ?thesis by simp
  qed
  with eq show ?thesis by blast
qed

text \<open>
  The body is received at once when the first read holds the blank line and
  at least as much body as the header declares; a request without a
  \<^verbatim>\<open>Content-length\<close> header declares nothing.
\<close>

lemma recvall_body_first_read:
  "get_http_body data = Inr b \<Longrightarrow> len \<le> length b \<Longrightarrow>
     recvall_body rt s data len = Some (Inr (url_decode rt b), s)"
  by (simp add: recvall_body_def recvall_loop.simps)






subsection \<open>The document locator\<close>

lemma readline_rest: "rest (snd (readline h)) = drop 1 (rest h)"
  by (simp add: readline_def split: list.splits)

lemma readline_reads: "reads (snd (readline h)) = Suc (reads h)"
  by (simp add: readline_def split: list.splits)

lemma readline_fst: "fst (readline h) = (if rest h = [] then [] else hd (rest h))"
  by (simp add: readline_def split: list.splits)

lemma fhandle_eqI: "rest (h :: fhandle) = rest h' \<Longrightarrow> reads h = reads h' \<Longrightarrow> h = h'"
  by simp

lemma read_line_loop_steps:
  "read_line_loop line (line + int k) doc h =
     (if k = 0 then doc
      else if k - 1 < length (rest h) then rest h ! (k - 1) else [],
      \<lparr>rest = drop k (rest h), reads = reads h + k\<rparr>)"
proof (induction k arbitrary: line doc h)
  case 0
  show ?case by (subst read_line_loop.simps) simp
next
  case (Suc k)
  have "read_line_loop line (line + int (Suc k)) doc h =
        read_line_loop (line + 1) ((line + 1) + int k) (fst (readline h)) (snd (readline h))"
    by (subst read_line_loop.simps) (simp add: algebra_simps)
  also have "\<dots> =
     (if k = 0 then fst (readline h)
      else if k - 1 < length (rest (snd (readline h))) then rest (snd (readline h)) ! (k - 1) else [],
      \<lparr>rest = drop k (rest (snd (readline h))), reads = reads (snd (readline h)) + k\<rparr>)"
    by (rule Suc.IH)
  also have "\<dots> =
     (if Suc k = 0 then doc
      else if Suc k - 1 < length (rest h) then rest h ! (Suc k - 1) else [],
      \<lparr>rest = drop (Suc k) (rest h), reads = reads h + Suc k\<rparr>)"
    by (cases "rest h"; cases k) (auto simp: readline_rest readline_reads readline_fst)
  finally show ?case .
qed

lemma read_line_at_nat:
  "read_line_at h (int n) =
     (if n < length (rest h) then rest h ! n else [],
      \<lparr>rest = drop (Suc n) (rest h), reads = reads h + Suc n\<rparr>)"
proof -
  have "read_line_at h (int n) =
      read_line_loop 0 (0 + int n) (fst (readline h)) (snd (readline h))"
    by (simp add: read_line_at_def)
  also have "\<dots> =
     (if n = 0 then fst (readline h)
      else if n - 1 < length (rest (snd (readline h))) then rest (snd (readline h)) ! (n - 1) else [],
      \<lparr>rest = drop n (rest (snd (readline h))), reads = reads (snd (readline h)) + n\<rparr>)"
    by (rule read_line_loop_steps)
  also have "\<dots> = (if n < length (rest h) then rest h ! n else [],
      \<lparr>rest = drop (Suc n) (rest h), reads = reads h + Suc n\<rparr>)"
    by (cases "rest h"; cases n) (auto simp: readline_rest readline_reads readline_fst)
  finally show ?thesis .
qed

text \<open>Facts about \<open>str_split\<close> and \<open>str_contains\<close>.\<close>

lemma str_split_Nil: "sep \<noteq> [] \<Longrightarrow> str_split sep [] = [[]]"
  by (subst str_split.simps) simp

lemma str_split_Cons:
  "sep \<noteq> [] \<Longrightarrow> str_split sep (c # cs) =
     (if prefix sep (c # cs) then [] # str_split sep (drop (length sep) (c # cs))
      else (case str_split sep cs of [] \<Rightarrow> [[c]] | r # rs \<Rightarrow> (c # r) # rs))"
  by (subst str_split.simps) (simp split: list.splits)

lemma str_contains_Nil: "str_contains sep [] = (sep = [])"
  by (simp add: str_contains_def)

lemma str_contains_Cons:
  "str_contains sep (c # cs) = (prefix sep (c # cs) \<or> str_contains sep cs)"
  by (auto simp: str_contains_def list_ex_iff)

lemma str_split_absent:
  "sep \<noteq> [] \<Longrightarrow> \<not> str_contains sep s \<Longrightarrow> str_split sep s = [s]"
  by (induction s) (simp_all add: str_split_Nil str_split_Cons str_contains_Cons)

lemma str_contains_append_right: "str_contains sep (p @ sep @ d)"
proof -
  have "suffix (sep @ d) (p @ sep @ d)" by (simp add: suffix_def)
  then have "sep @ d \<in> set (suffixes (p @ sep @ d))" by (simp only: in_set_suffixes)
  moreover have "prefix sep (sep @ d)" by simp
  ultimately show ?thesis unfolding str_contains_def list_ex_iff by blast
qed

lemma prefix_sep_early:
  assumes "prefix sep (p @ sep @ d)" and "p \<noteq> []" and "sep \<noteq> []"
  shows "prefix sep (p @ butlast sep)"
proof -
  from assms(1) have "sep = take (length sep) (p @ sep @ d)"
    by (metis append_eq_conv_conj prefix_def)
  moreover have "take (length sep) (p @ sep @ d) = take (length sep) (p @ butlast sep)"
    using assms(2,3)
    by (cases p; cases sep rule: rev_cases) (auto simp: take_Cons' butlast_append)
  ultimately have "sep = take (length sep) (p @ butlast sep)" by simp
  then show ?thesis by (metis take_is_prefix)
qed

lemma str_split_first:
  assumes "sep \<noteq> []" and "\<not> str_contains sep (p @ butlast sep)"
  shows "str_split sep (p @ sep @ d) = p # str_split sep d"
  using assms
proof (induction p)
  case Nil
  have "str_split sep (sep @ d) = [] # str_split sep d"
    using Nil(1) by (subst str_split.simps) simp
  then show ?case by simp
next
  case (Cons c p)
  from Cons.prems have np: "\<not> prefix sep ((c # p) @ butlast sep)"
    and nc: "\<not> str_contains sep (p @ butlast sep)"
    by (auto simp: str_contains_Cons)
  from np Cons.prems(1) have "\<not> prefix sep ((c # p) @ sep @ d)"
    using prefix_sep_early [of sep "c # p" d] by blast
  with Cons.IH [OF Cons.prems(1) nc] Cons.prems(1) show ?case
    by (simp add: str_split_Cons)
qed

text \<open>Decimal numerals: \<open>py_int\<close> reads what \<open>str_of_nat\<close> writes.\<close>

lemma digit_val_ascii: "48 \<le> c \<Longrightarrow> c \<le> 57 \<Longrightarrow> digit_val c = Some (c - 48)"
  by (simp add: digit_val_def digit_zeros_def)

lemma is_digit_ascii: "48 \<le> c \<Longrightarrow> c \<le> 57 \<Longrightarrow> is_digit c"
  by (simp add: is_digit_def digit_val_ascii)

lemma is_digit_iff: "is_digit c = (\<exists>z\<in>set digit_zeros. z \<le> c \<and> c < z + 10)"
proof -
  have "is_digit c = (filter (\<lambda>z. z \<le> c \<and> c < z + 10) digit_zeros \<noteq> [])"
    by (simp add: is_digit_def digit_val_def split: list.splits)
  also have "\<dots> = (\<exists>z\<in>set digit_zeros. z \<le> c \<and> c < z + 10)"
    by (simp add: filter_empty_conv)
  finally show ?thesis .
qed

lemma is_digit_ge: "is_digit c \<Longrightarrow> 48 \<le> c"
proof -
  have "list_all (\<lambda>z. 48 \<le> z) digit_zeros"
    by (simp add: digit_zeros_def)
  then show "is_digit c \<Longrightarrow> 48 \<le> c"
    by (auto simp: is_digit_iff list_all_iff)
qed

lemma is_digit_not_space: "is_digit c \<Longrightarrow> \<not> is_int_space c"
proof
  let ?ws = "[9, 10, 11, 12, 13, 32, 133, 160, 5760, 8192, 8193, 8194, 8195, 8196, 8197, 8198,
     8199, 8200, 8201, 8202, 8232, 8233, 8239, 8287, 12288::nat]"
  assume d: "is_digit c" and "is_int_space c"
  then have "c \<in> set ?ws"
    by (simp add: is_int_space_def is_space_def) presburger
  moreover have "list_all (\<lambda>c. \<not> is_digit c) ?ws"
    by (simp add: is_digit_def digit_val_def digit_zeros_def)
  ultimately show False
    using d unfolding list_all_iff by blast
qed

lemma digits_val_snoc:
  "digits_val (ds @ [d]) = 10 * digits_val ds + (case digit_val d of None \<Rightarrow> 0 | Some v \<Rightarrow> v)"
  by (simp add: digits_val_def)

lemma digits_val_str_of_nat: "digits_val (str_of_nat n) = n"
proof (induction n rule: str_of_nat.induct)
  case (1 n)
  show ?case
  proof (cases "n < 10")
    case True
    then have "digit_val (48 + n) = Some n" by (simp add: digit_val_ascii)
    then show ?thesis by (subst str_of_nat.simps) (simp add: True digits_val_def)
  next
    case False
    have "digit_val (48 + n mod 10) = Some (n mod 10)" by (simp add: digit_val_ascii)
    with False 1 show ?thesis by (subst str_of_nat.simps) (simp add: digits_val_snoc)
  qed
qed

lemma str_of_nat_digits: "list_all is_digit (str_of_nat n) \<and> str_of_nat n \<noteq> []"
proof (induction n rule: str_of_nat.induct)
  case (1 n)
  show ?case
  proof (cases "n < 10")
    case True
    then have "is_digit (48 + n)" by (simp add: is_digit_ascii)
    with True show ?thesis by (subst (1 2) str_of_nat.simps) simp
  next
    case False
    have "is_digit (48 + n mod 10)" by (simp add: is_digit_ascii)
    with False 1 show ?thesis by (subst (1 2) str_of_nat.simps) simp
  qed
qed

lemma dropWhile_space_digits: "list_all is_digit ds \<Longrightarrow> dropWhile is_int_space ds = ds"
  by (cases ds) (auto simp: is_digit_not_space)

lemma int_digits_plain:
  assumes "list_all is_digit ds" and "ds \<noteq> []"
  shows "int_digits ds = Some ds"
proof -
  from assms have "is_digit (hd ds)" "is_digit (last ds)"
    by (auto simp: list_all_iff)
  moreover from assms(1) have "list_all (\<lambda>c. is_digit c \<or> c = 95) ds"
    by (auto simp: list_all_iff)
  moreover from assms(1) have "list_all (\<lambda>(a, b). is_digit a \<or> is_digit b) (zip ds (tl ds))"
    by (auto simp: list_all_iff dest: set_zip_leftD)
  moreover from assms(1) have "filter is_digit ds = ds"
    by (auto simp: list_all_iff)
  ultimately show ?thesis
    using assms(2) by (simp add: int_digits_def)
qed

lemma py_int_digits:
  assumes "list_all is_digit ds" and "ds \<noteq> []"
  shows "py_int ds = Inr (int (digits_val ds))"
proof -
  from assms have r: "list_all is_digit (rev ds)" "rev ds \<noteq> []" by simp_all
  have t: "rev (dropWhile is_int_space (rev (dropWhile is_int_space ds))) = ds"
    using assms(1) r(1) by (simp add: dropWhile_space_digits)
  from assms have "is_digit (hd ds)" by (cases ds) auto
  then have "hd ds \<noteq> 45 \<and> hd ds \<noteq> 43" by (auto dest: is_digit_ge)
  with assms show ?thesis
    by (simp add: py_int_def t Let_def int_digits_plain)
qed

lemma py_int_str_of_nat: "py_int (str_of_nat n) = Inr (int n)"
  using py_int_digits [of "str_of_nat n"] str_of_nat_digits [of n]
  by (simp add: digits_val_str_of_nat)

lemma digits_no_sep:
  assumes "list_all is_digit ds" and "sep \<noteq> []" and "\<not> is_digit (hd sep)"
  shows "\<not> str_contains sep ds"
  using assms(1)
proof (induction ds)
  case Nil
  with assms(2) show ?case by (simp add: str_contains_Nil)
next
  case (Cons d ds)
  from assms(2,3) Cons.prems have "\<not> prefix sep (d # ds)"
    by (cases sep) auto
  with Cons show ?case by (simp add: str_contains_Cons)
qed

text \<open>
  C6. For a locator \<^verbatim>\<open><path>:line:N\<close> (where \<^verbatim>\<open>:line:\<close> occurs only once, and the
  file exists and is valid UTF-8) the text of the document is what the \<open>N + 1\<close>st
  \<^verbatim>\<open>readline\<close> returns: exactly \<open>N + 1\<close> lines are read from the start of the
  file, and the result is the line with index \<open>N\<close>, counted from 0, if the file
  has more than \<open>N\<close> lines, and the empty text of \<^verbatim>\<open>readline\<close> at the end of the
  file otherwise.
\<close>

theorem get_doc_text_line:
  assumes "\<not> str_contains (u '':line:'') (p @ u '':line'')"
    and "read_text (files rt) p = Inr t"
  shows "get_doc_text rt sv (p @ u '':line:'' @ str_of_nat n) =
           Inr (fst (read_line_at \<lparr>rest = splitlines t, reads = 0\<rparr> (int n))) \<and>
         read_line_at \<lparr>rest = splitlines t, reads = 0\<rparr> (int n) =
           (if n < length (splitlines t) then splitlines t ! n else [],
            \<lparr>rest = drop (Suc n) (splitlines t), reads = Suc n\<rparr>)"
proof -
  let ?sep = "u '':line:''"
  have sep: "?sep \<noteq> []" "butlast ?sep = u '':line''" "\<not> is_digit (hd ?sep)"
    by (simp_all add: u_def is_digit_def digit_val_def digit_zeros_def)
  have c: "str_contains ?sep (p @ ?sep @ str_of_nat n)"
    by (rule str_contains_append_right)
  have "\<not> str_contains ?sep (str_of_nat n)"
    using str_of_nat_digits [of n] sep(1,3) by (intro digits_no_sep) simp_all
  then have "str_split ?sep (str_of_nat n) = [str_of_nat n]"
    using sep(1) by (simp add: str_split_absent)
  moreover have "str_split ?sep (p @ ?sep @ str_of_nat n) = p # str_split ?sep (str_of_nat n)"
    using sep(1) assms(1) by (intro str_split_first) (simp_all add: sep(2))
  ultimately have s: "str_split ?sep (p @ ?sep @ str_of_nat n) = [p, str_of_nat n]"
    by simp
  have "get_doc_text rt sv (p @ ?sep @ str_of_nat n) =
           Inr (fst (read_line_at \<lparr>rest = splitlines t, reads = 0\<rparr> (int n)))"
    using c assms(2) by (simp add: get_doc_text_def s py_int_str_of_nat open_text_def)
  then show ?thesis
    by (simp add: read_line_at_nat)
qed

theorem get_doc_text_line_witness:
  "\<not> str_contains (u '':line:'') (u ''/t/b.txt'' @ u '':line'') \<and>
   read_text (files ex_rt) (u ''/t/b.txt'') = Inr (u ''one'' @ [10] @ u ''three'' @ [10] @ u ''x'') \<and>
   get_doc_text ex_rt ex_srv (u ''/t/b.txt:line:1'') = Inr (u ''three'' @ [10])"
proof -
  let ?t = "u ''one'' @ [10] @ u ''three'' @ [10] @ u ''x''"
  have h1: "\<not> str_contains (u '':line:'') (u ''/t/b.txt'' @ u '':line'')"
    by code_simp
  have h2: "read_text (files ex_rt) (u ''/t/b.txt'') = Inr ?t"
    by code_simp
  have n: "u ''/t/b.txt'' @ u '':line:'' @ str_of_nat 1 = u ''/t/b.txt:line:1''"
    by (simp add: str_of_nat.simps u_def)
  have l: "splitlines ?t = [u ''one'' @ [10], u ''three'' @ [10], u ''x'']"
    by (simp add: u_def is_linebreak_def)
  from get_doc_text_line [OF h1 h2, of ex_srv 1]
  have "get_doc_text ex_rt ex_srv (u ''/t/b.txt:line:1'') = Inr (u ''three'' @ [10])"
    unfolding n l by simp
  with h1 h2 show ?thesis by blast
qed

subsection \<open>Receiving the body\<close>

lemma str_contains_append_left:
  assumes "str_contains sep b"
  shows "str_contains sep (b @ x)"
proof -
  from assms obtain t where t: "suffix t b" "prefix sep t"
    by (auto simp: str_contains_def list_ex_iff in_set_suffixes)
  from t(1) have "suffix (t @ x) (b @ x)" by (auto simp: suffix_def)
  moreover from t(2) have "prefix sep (t @ x)" by (rule prefix_prefix)
  ultimately show ?thesis
    unfolding str_contains_def list_ex_iff in_set_suffixes [symmetric] by blast
qed

lemma get_http_body_first:
  assumes "\<not> str_contains (CRLF @ CRLF) (head @ [13, 10, 13])"
    and "\<not> str_contains (CRLF @ CRLF) b"
  shows "get_http_body (head @ CRLF @ CRLF @ b) = Inr b"
proof -
  have sep: "CRLF @ CRLF \<noteq> []" "butlast (CRLF @ CRLF) = [13, 10, 13]"
    by (simp_all add: CRLF_def)
  have "str_split (CRLF @ CRLF) (head @ (CRLF @ CRLF) @ b) = head # str_split (CRLF @ CRLF) b"
    using sep(1) assms(1) by (intro str_split_first) (simp_all add: sep(2))
  moreover have "str_split (CRLF @ CRLF) b = [b]"
    using sep(1) assms(2) by (rule str_split_absent)
  ultimately show ?thesis
    by (simp add: get_http_body_def py_nth_def)
qed

lemma utf8_decode_Nil_iff: "utf8_decode c = Inr [] \<Longrightarrow> c = []"
  by (cases c) (auto simp: Let_def cons_ok_def split: if_splits list.splits sum.splits)

lemma recvall_loop_chunks:
  assumes "list_all2 (\<lambda>c t. c \<noteq> [] \<and> length c \<le> RECV_BUFFER \<and> utf8_decode c = Inr t) cs ts"
    and "length (body @ concat ts) = len"
  shows "recvall_loop len body (s\<lparr>inbox := cs\<rparr>) = Some (Inr (body @ concat ts), s\<lparr>inbox := []\<rparr>)"
  using assms
proof (induction cs ts arbitrary: body rule: list_all2_induct)
  case Nil
  then show ?case by (subst recvall_loop.simps) simp
next
  case (Cons c cs t ts)
  from Cons.hyps(1) have t: "t \<noteq> []" by (auto dest: utf8_decode_Nil_iff)
  with Cons.prems have short: "length body < len" by auto
  from Cons.hyps(1) have r: "recv (s\<lparr>inbox := c # cs\<rparr>) RECV_BUFFER = (c, s\<lparr>inbox := cs\<rparr>)"
    by (simp add: recv_def)
  have "recvall_loop len body (s\<lparr>inbox := c # cs\<rparr>) =
        recvall_loop len (body @ t) (s\<lparr>inbox := cs\<rparr>)"
    using short Cons.hyps(1) by (subst recvall_loop.simps) (simp add: r)
  also have "\<dots> = Some (Inr ((body @ t) @ concat ts), s\<lparr>inbox := []\<rparr>)"
    using Cons.prems by (intro Cons.IH) simp
  finally show ?case by simp
qed

text \<open>
  A body without a blank line. The request text of the first read is a head
  without a blank line, the blank line, and the first part \<open>b0\<close> of the body; \<open>cs\<close>
  are the further reads, each of them not empty, at most \<open>RECV_BUFFER\<close> bytes and
  valid UTF-8 by itself, with the texts \<open>ts\<close>. If the whole body contains no blank
  line (\<^verbatim>\<open>\r\n\r\n\<close>) and has as many characters as were declared, then
  \<open>recvall_body\<close> returns the URL-decoded body, in however many reads it arrives.
\<close>

lemma recvall_body_reassembly:
  assumes "\<not> str_contains (CRLF @ CRLF) (head @ [13, 10, 13])"
    and "\<not> str_contains (CRLF @ CRLF) (b0 @ concat ts)"
    and "list_all2 (\<lambda>c t. c \<noteq> [] \<and> length c \<le> RECV_BUFFER \<and> utf8_decode c = Inr t) cs ts"
    and "length (b0 @ concat ts) = len"
  shows "recvall_body rt (s\<lparr>inbox := cs\<rparr>) (head @ CRLF @ CRLF @ b0) len =
           Some (Inr (url_decode rt (b0 @ concat ts)), s\<lparr>inbox := []\<rparr>) \<and>
         recvall_body rt (s\<lparr>inbox := []\<rparr>) (head @ CRLF @ CRLF @ b0 @ concat ts) len =
           Some (Inr (url_decode rt (b0 @ concat ts)), s\<lparr>inbox := []\<rparr>)"
proof -
  from assms(2) have "\<not> str_contains (CRLF @ CRLF) b0"
    by (auto dest: str_contains_append_left)
  with assms(1) have b0: "get_http_body (head @ CRLF @ CRLF @ b0) = Inr b0"
    by (rule get_http_body_first)
  from assms(1,2) have b: "get_http_body (head @ CRLF @ CRLF @ b0 @ concat ts) = Inr (b0 @ concat ts)"
    by (rule get_http_body_first)
  have l1: "recvall_loop len b0 (s\<lparr>inbox := cs\<rparr>) =
      Some (Inr (b0 @ concat ts), s\<lparr>inbox := []\<rparr>)"
    using assms(3,4) by (rule recvall_loop_chunks)
  have l2: "recvall_loop len (b0 @ concat ts) (s\<lparr>inbox := []\<rparr>) =
      Some (Inr (b0 @ concat ts), s\<lparr>inbox := []\<rparr>)"
    using assms(4) by (subst recvall_loop.simps) simp
  show ?thesis
    by (simp add: recvall_body_def b0 b l1 l2)
qed

lemma ex_head_no_blank_line: "\<not> str_contains (CRLF @ CRLF) (ex_head @ [13, 10, 13])"
  by (simp add: ex_head_def str_contains_Cons str_contains_Nil u_def CRLF_def)

lemma recvall_body_reassembly_example:
  "\<not> str_contains (CRLF @ CRLF) (ex_head @ [13, 10, 13]) \<and>
   \<not> str_contains (CRLF @ CRLF) (u ''%41'' @ concat [u ''b'', u ''cd'']) \<and>
   list_all2 (\<lambda>c t. c \<noteq> [] \<and> length c \<le> RECV_BUFFER \<and> utf8_decode c = Inr t)
     [''b'', ''cd''] [u ''b'', u ''cd''] \<and>
   length (u ''%41'' @ concat [u ''b'', u ''cd'']) = 6 \<and>
   recvall_body ex_rt (ex_io [''b'', ''cd'']) (ex_head @ CRLF @ CRLF @ u ''%41'') 6 =
     Some (Inr (u ''Abcd''), ex_io []) \<and>
   recvall_body ex_rt (ex_io []) (ex_head @ CRLF @ CRLF @ u ''%41bcd'') 6 =
     Some (Inr (u ''Abcd''), ex_io [])"
proof -
  have h2: "\<not> str_contains (CRLF @ CRLF) (u ''%41'' @ concat [u ''b'', u ''cd''])"
    by (simp add: str_contains_Cons str_contains_Nil u_def CRLF_def)
  have h3: "list_all2 (\<lambda>c t. c \<noteq> [] \<and> length c \<le> RECV_BUFFER \<and> utf8_decode c = Inr t)
     [''b'', ''cd''] [u ''b'', u ''cd'']"
    by (simp add: RECV_BUFFER_def u_def cons_ok_def)
  have h4: "length (u ''%41'' @ concat [u ''b'', u ''cd'']) = 6"
    by (simp add: u_def)
  have d: "url_decode ex_rt (u ''%41bcd'') = u ''Abcd''"
    by (simp add: ex_rt_def u_def)
  have e: "u ''%41'' @ concat [u ''b'', u ''cd''] = u ''%41bcd''"
    by (simp add: u_def)
  from recvall_body_reassembly [OF ex_head_no_blank_line h2 h3 h4, of ex_rt "ex_io []"]
  have "recvall_body ex_rt (ex_io [''b'', ''cd'']) (ex_head @ CRLF @ CRLF @ u ''%41'') 6 =
     Some (Inr (u ''Abcd''), ex_io []) \<and>
   recvall_body ex_rt (ex_io []) (ex_head @ CRLF @ CRLF @ u ''%41bcd'') 6 =
     Some (Inr (u ''Abcd''), ex_io [])"
    unfolding e d by (simp add: ex_io_def)
  with ex_head_no_blank_line h2 h3 h4 show ?thesis by blast
qed

lemma get_http_body_ex_head:
  "get_http_body (ex_head @ CRLF @ CRLF @ u ''a'' @ x) = py_nth (ex_head # str_split (CRLF @ CRLF) (u ''a'' @ x)) 1"
proof -
  have "str_split (CRLF @ CRLF) (ex_head @ (CRLF @ CRLF) @ (u ''a'' @ x)) =
      ex_head # str_split (CRLF @ CRLF) (u ''a'' @ x)"
    using ex_head_no_blank_line by (intro str_split_first) (simp_all add: CRLF_def)
  then show ?thesis by (simp add: get_http_body_def)
qed

lemma get_http_contlength_ex_head: "get_http_contlength (ex_head @ CRLF @ r) = 6"
  by (simp add: get_http_contlength_def ex_head_def u_def CRLF_def contlength_match_def
      is_space_def is_digit_def digit_val_def digit_zeros_def lower_ascii_def digits_val_def)

text \<open>
  C5. The claim is that a body is reassembled to the same text whether it
  arrives in one read or in several. The code does not achieve this for a body
  that contains a blank line: the body \<^verbatim>\<open>a\r\n\r\nb\<close>, of the six bytes that the
  header declares, is reassembled when \<^verbatim>\<open>a\<close> arrives with the head and the rest
  with a second read; when all of it arrives with the head, \<open>get_http_body\<close>
  returns only \<^verbatim>\<open>a\<close>, the second piece of the split, and the loop waits for five
  bytes that never come, although the whole body has arrived.
\<close>

theorem recvall_body_single_read_truncates:
  "get_http_contlength (ex_head @ CRLF @ CRLF @ u ''a'') = 6 \<and>
   recvall_body ex_rt (ex_io [crlf ''||b'']) (ex_head @ CRLF @ CRLF @ u ''a'') 6 =
     Some (Inr (u ''a'' @ CRLF @ CRLF @ u ''b''), ex_io []) \<and>
   get_http_contlength (ex_head @ CRLF @ CRLF @ u ''a'' @ CRLF @ CRLF @ u ''b'') = 6 \<and>
   recvall_body ex_rt (ex_io []) (ex_head @ CRLF @ CRLF @ u ''a'' @ CRLF @ CRLF @ u ''b'') 6 = None"
proof -
  have c1: "get_http_contlength (ex_head @ CRLF @ CRLF @ u ''a'') = 6"
    by (rule get_http_contlength_ex_head)
  have c2: "get_http_contlength (ex_head @ CRLF @ CRLF @ u ''a'' @ CRLF @ CRLF @ u ''b'') = 6"
    by (rule get_http_contlength_ex_head)
  have b1: "get_http_body (ex_head @ CRLF @ CRLF @ u ''a'') = Inr (u ''a'')"
    using get_http_body_ex_head [of "[]"]
    by (simp add: str_split.simps py_nth_def u_def CRLF_def)
  have b2: "get_http_body (ex_head @ CRLF @ CRLF @ u ''a'' @ CRLF @ CRLF @ u ''b'') = Inr (u ''a'')"
    using get_http_body_ex_head [of "CRLF @ CRLF @ u ''b''"]
    by (simp add: str_split.simps py_nth_def u_def CRLF_def)
  have l1: "recvall_loop 6 (u ''a'') (ex_io [crlf ''||b'']) =
      Some (Inr (u ''a'' @ CRLF @ CRLF @ u ''b''), ex_io [])"
    by (simp add: recvall_loop.simps ex_io_def recv_def RECV_BUFFER_def crlf_def u_def CRLF_def
        cons_ok_def)
  have l2: "recvall_loop 6 (u ''a'') (ex_io []) = None"
    by (simp add: recvall_loop.simps ex_io_def u_def)
  have d: "url_decode ex_rt (u ''a'' @ CRLF @ CRLF @ u ''b'') = u ''a'' @ CRLF @ CRLF @ u ''b''"
    by (simp add: ex_rt_def u_def CRLF_def)
  have r1: "recvall_body ex_rt (ex_io [crlf ''||b'']) (ex_head @ CRLF @ CRLF @ u ''a'') 6 =
      Some (Inr (u ''a'' @ CRLF @ CRLF @ u ''b''), ex_io [])"
    by (simp add: recvall_body_def b1 l1 d)
  have r2: "recvall_body ex_rt (ex_io [])
      (ex_head @ CRLF @ CRLF @ u ''a'' @ CRLF @ CRLF @ u ''b'') 6 = None"
    by (simp add: recvall_body_def b2 l2)
  from c1 r1 c2 r2 show ?thesis
    by blast
qed

subsection \<open>The dispatcher\<close>

lemma store_io_clients:
  "clients (store_io st fd s) = clients st \<and> closed (store_io st fd s) = closed st \<and>
   attrs (store_io st fd s) = attrs st"
  by (simp add: store_io_def)

text \<open>
  C3, as amended. If the handler of a request raises an exception, the \<^verbatim>\<open>for\<close>
  loop and the \<^verbatim>\<open>while\<close> loop are left at once: the connection stays in
  \<^verbatim>\<open>clients\<close> and is not closed, and neither the other readable sockets nor the
  later events are handled. An exception other than \<^verbatim>\<open>KeyboardInterrupt\<close> leaves
  \<^verbatim>\<open>serve\<close>; only \<^verbatim>\<open>KeyboardInterrupt\<close> is caught, after which the listening
  socket is closed and \<^verbatim>\<open>serve\<close> returns.
\<close>

theorem serve_loop_request_raises:
  assumes "handle_request rt (attrs st) (io_of st fd) = Some (Inl e, s')"
  shows "serve_loop rt st (Ready (Request fd # rs) # evs) =
           (if e = KeyboardInterrupt then Returned (on_interrupt (store_io st fd s'))
            else Raised e (store_io st fd s')) \<and>
         clients (store_io st fd s') = clients st \<and>
         closed (store_io st fd s') = closed st"
  using assms by (simp add: store_io_clients)

lemma handle_request_garbage:
  "handle_request rt sv \<lparr>inbox = [''garbage''], sent = [], log = lg\<rparr> =
     Some (Inl IndexError, \<lparr>inbox = [], sent = [], log = lg\<rparr>)"
proof -
  have r: "recv \<lparr>inbox = [''garbage''], sent = [], log = lg\<rparr> RECV_BUFFER =
      (''garbage'', \<lparr>inbox = [], sent = [], log = lg\<rparr>)"
    by (simp add: recv_def RECV_BUFFER_def)
  have d: "utf8_decode ''garbage'' = Inr (u ''garbage'')"
    by (simp add: cons_ok_def u_def)
  have p: "get_http_path (u ''garbage'') = Inl IndexError"
    by (simp add: get_http_path_def str_split.simps py_nth_def u_def)
  show ?thesis
    unfolding handle_request_def r Let_def split_conv d by (simp add: p)
qed

theorem serve_loop_request_raises_witness:
  "handle_request ex_rt (attrs ex_st) (io_of ex_st 4) =
     Some (Inl IndexError, \<lparr>inbox = [], sent = [], log = []\<rparr>) \<and>
   serve_loop ex_rt ex_st [Ready [Request 4, Request 3], Ready [Request 3]] =
     Raised IndexError (ex_st\<lparr>socks := [(4, \<lparr>inbox = [], sent = []\<rparr>)]\<rparr>) \<and>
   clients (ex_st\<lparr>socks := [(4, \<lparr>inbox = [], sent = []\<rparr>)]\<rparr>) = [3, 4] \<and>
   closed (ex_st\<lparr>socks := [(4, \<lparr>inbox = [], sent = []\<rparr>)]\<rparr>) = []"
proof -
  have io: "io_of ex_st 4 = \<lparr>inbox = [''garbage''], sent = [], log = []\<rparr>"
    by (simp add: io_of_def ex_st_def)
  have h: "handle_request ex_rt (attrs ex_st) (io_of ex_st 4) =
     Some (Inl IndexError, \<lparr>inbox = [], sent = [], log = []\<rparr>)"
    unfolding io by (rule handle_request_garbage)
  have s: "store_io ex_st 4 \<lparr>inbox = [], sent = [], log = []\<rparr> =
      ex_st\<lparr>socks := [(4, \<lparr>inbox = [], sent = []\<rparr>)]\<rparr>"
    by (simp add: store_io_def ex_st_def)
  from serve_loop_request_raises [OF h, of "[Request 3]" "[Ready [Request 3]]"]
  show ?thesis
    unfolding s using h by (simp add: ex_st_def)
qed

text \<open>
  C3, as stated, fails: the request line \<^verbatim>\<open>garbage\<close> has no second word, so
  \<open>get_http_path\<close> raises \<^verbatim>\<open>IndexError\<close>, and with it \<^verbatim>\<open>serve\<close> ends although no
  interrupt occurred; connection 4 is still watched and open, and the connection
  that arrives later is never accepted.
\<close>

theorem serve_request_exception_counterexample:
  "serve ex_rt ex_listen
     [Ready [Accept 4 (u ''10.0.0.1'') (u ''12:00'') [''garbage'']],
      Ready [Request 4],
      Ready [Accept 5 (u ''10.0.0.2'') (u ''12:01'') [crlf ''POST /ack HTTP/1.1||'']]]
     (ex_srv\<lparr>server_socket := Some 3, port := 8080\<rparr>) [] None None None 0 False =
   Raised IndexError
     \<lparr>attrs = ex_srv\<lparr>server_socket := Some 3, port := 8080\<rparr>,
      out = [Info (u ''waiting for requests''), Show (u ''[ 10.0.0.1 : 12:00 ]'')],
      clients = [3, 4], sock_to_addr = [(4, u ''10.0.0.1'')],
      socks = [(4, \<lparr>inbox = [], sent = []\<rparr>)], closed = [], browser = []\<rparr>"
proof -
  have h: "handle_request ex_rt sv \<lparr>inbox = [''garbage''], sent = [], log = lg\<rparr> =
     Some (Inl IndexError, \<lparr>inbox = [], sent = [], log = lg\<rparr>)" for sv lg
    by (rule handle_request_garbage)
  show ?thesis
    by (simp add: serve_def serve_testset_def serve_init_def ex_srv_def io_of_def store_io_def h)
       (simp add: u_def)
qed

subsection \<open>The test set given in memory\<close>

lemma start_listening_testset:
  "start_listening listen sv lg p = (r, sv', lg') \<Longrightarrow>
     docs sv' = docs sv \<and> x_test sv' = x_test sv \<and> clf sv' = clf sv"
  by (auto simp: start_listening_def split: sum.splits prod.splits)

lemma serve_testset_mismatch:
  "x \<noteq> [] \<Longrightarrow> length y \<noteq> length x \<Longrightarrow>
   serve_testset rt sv lg (Some x) (Some y) =
     (Inr False, sv, lg @ [Error (u ''y_test must have the same length as x_test'')])"
  by (simp add: serve_testset_def)

text \<open>
  C2, as amended. The lengths are compared by \<^verbatim>\<open>serve\<close>, not by \<open>set_testset\<close>.
  When \<^verbatim>\<open>serve\<close> has a model and a listening socket and is given documents, not
  none, and labels of another length, it prints the error and returns: it does
  not serve, and \<^verbatim>\<open>__docs__\<close> and \<^verbatim>\<open>__x_test__\<close> are as before.
\<close>

theorem serve_length_mismatch:
  assumes "x \<noteq> []" and "length y \<noteq> length x"
    and "(\<exists>c. clf_arg = Some c) \<or> (\<exists>c. clf sv = Some c)"
    and "(\<exists>fd. server_socket sv = Some fd) \<or> (\<exists>r. listen p = Inr r)"
  shows "\<exists>st. serve rt listen evs sv lg clf_arg (Some x) (Some y) p b = Returned st \<and>
           docs (attrs st) = docs sv \<and> x_test (attrs st) = x_test sv \<and>
           out st \<noteq> [] \<and>
           last (out st) = Error (u ''y_test must have the same length as x_test'') \<and>
           clients st = []"
  using assms
  by (auto simp: serve_def Let_def serve_testset_mismatch serve_init_def start_listening_def
      split: option.splits sum.splits prod.splits)

theorem serve_length_mismatch_witness:
  "[u ''d0''] \<noteq> [] \<and> length [u ''A'', u ''B''] \<noteq> length [u ''d0''] \<and>
   ((\<exists>c. Some ex_clf = Some c) \<or> (\<exists>c. clf ex_srv = Some c)) \<and>
   ((\<exists>fd. server_socket ex_srv = Some fd) \<or> (\<exists>r. ex_listen 0 = Inr r)) \<and>
   (\<exists>st. serve ex_rt ex_listen [] ex_srv [] (Some ex_clf) (Some [u ''d0''])
            (Some [u ''A'', u ''B'']) 0 True = Returned st \<and>
         docs (attrs st) = [] \<and> x_test (attrs st) = None \<and> out st \<noteq> [] \<and>
         last (out st) = Error (u ''y_test must have the same length as x_test'') \<and>
         clients st = [])"
proof -
  have h: "(\<exists>fd. server_socket ex_srv = Some fd) \<or> (\<exists>r. ex_listen 0 = Inr r)"
    by (simp add: ex_listen_def)
  from serve_length_mismatch [of "[u ''d0'']" "[u ''A'', u ''B'']" "Some ex_clf" ex_srv ex_listen 0
      ex_rt "[]" "[]" True] h
  show ?thesis
    by (simp add: ex_srv_def)
qed

lemma ex_classify_d0: "classify ex_clf (u ''d0'') = Inr [(0, 2), (1, 0)]"
  by (simp add: ex_clf_def ex_classify_def u_def)

text \<open>
  C2, as stated, fails for \<open>set_testset\<close>: with one document and two labels it
  reports no error, replaces \<^verbatim>\<open>__x_test__\<close> and builds an index with the two
  categories.
\<close>

theorem set_testset_length_counterexample:
  "set_testset ex_rt ex_srv [] [u ''d0''] [u ''A'', u ''B''] =
     (Inr True,
      ex_srv\<lparr>docs :=
               [(u ''A'', \<lparr>keys = [Path, FileName, ClfResult], path = [u '':x_test:0''],
                          file = [u ''doc_0''], clf_result = [0]\<rparr>),
                (u ''B'', \<lparr>keys = [Path, FileName, ClfResult], path = [], file = [],
                          clf_result = []\<rparr>)],
             x_test := Some [u ''d0'']\<rparr>,
      [Info (u ''2 categories found'')])"
proof -
  have ne: "u ''A'' \<noteq> u ''B''" "u ''B'' \<noteq> u ''A''"
    by (simp_all add: u_def)
  have n: "str_of_nat 0 = u ''0''" "str_of_nat (Suc (Suc 0)) = u ''2''"
    by (simp_all add: str_of_nat.simps u_def)
  have t: "top_label (float_bool ex_rt) (unknown_index ex_clf) [(0, 2), (1, 0)] = Inr 0"
    by (simp add: top_label_def ex_rt_def)
  have e: "u '':x_test:'' @ u ''0'' = u '':x_test:0''" "u ''doc_'' @ u ''0'' = u ''doc_0''"
    "u ''2'' @ u '' categories found'' = u ''2 categories found''"
    by (simp_all add: u_def)
  show ?thesis
    by (simp add: set_testset_def clear_testset_def ex_srv_def ne py_nth_def ex_classify_d0 t
        doc_name_def x_test_locator_def categories_found_def n e new_entry_def)
qed

subsection \<open>The test corpus index\<close>

lemma entry_inv_new: "entry_inv R new_entry"
  by (simp add: entry_inv_def new_entry_def)

lemma entry_inv_append:
  assumes "entry_inv R e" and "R p f l"
  shows "entry_inv R (e\<lparr>file := file e @ [f], path := path e @ [p],
                          clf_result := clf_result e @ [l]\<rparr>)"
  using assms
  by (auto simp: entry_inv_def list_all_iff nth_append)

lemma docs_inv_Nil: "docs_inv R []"
  by (simp add: docs_inv_def)

lemma docs_inv_set:
  "docs_inv R ds \<Longrightarrow> entry_inv (R k) v \<Longrightarrow> docs_inv R (dict_set k v ds)"
  by (induction ds) (auto simp: docs_inv_def)

lemma docs_inv_upd:
  "docs_inv R ds \<Longrightarrow> (\<And>e. entry_inv (R k) e \<Longrightarrow> entry_inv (R k) (g e)) \<Longrightarrow>
   docs_inv R (dict_upd k g ds)"
  by (induction ds) (auto simp: docs_inv_def)

lemma dict_upd_fuse: "dict_upd k f (dict_upd k g ds) = dict_upd k (\<lambda>v. f (g v)) ds"
  by (induction ds) auto

lemma docs_inv_append3:
  assumes "docs_inv R ds" and "R k p f l"
  shows "docs_inv R
           (dict_upd k (\<lambda>e. e\<lparr>clf_result := clf_result e @ [l]\<rparr>)
              (dict_upd k (\<lambda>e. e\<lparr>path := path e @ [p]\<rparr>)
                 (dict_upd k (\<lambda>e. e\<lparr>file := file e @ [f]\<rparr>) ds)))"
proof -
  have "entry_inv (R k) (e\<lparr>file := file e @ [f], path := path e @ [p],
                          clf_result := clf_result e @ [l]\<rparr>)" if "entry_inv (R k) e" for e
    using that assms(2) by (rule entry_inv_append)
  with assms(1) show ?thesis
    by (simp add: dict_upd_fuse docs_inv_upd)
qed

lemma docs_inv_append3':
  assumes "docs_inv R ds" and "R k p f l"
  shows "docs_inv R
           (dict_upd k (\<lambda>e. e\<lparr>clf_result := clf_result e @ [l]\<rparr>)
              (dict_upd k (\<lambda>e. e\<lparr>file := file e @ [f]\<rparr>)
                 (dict_upd k (\<lambda>e. e\<lparr>path := path e @ [p]\<rparr>) ds)))"
proof -
  have "entry_inv (R k) (e\<lparr>path := path e @ [p], file := file e @ [f],
                          clf_result := clf_result e @ [l]\<rparr>)" if "entry_inv (R k) e" for e
    using that assms(2) by (auto simp: entry_inv_def list_all_iff nth_append)
  with assms(1) show ?thesis
    by (simp add: dict_upd_fuse docs_inv_upd)
qed

lemma set_testset_loop_inv:
  assumes "set_testset_loop rt c y idoc xs ds = (Inr (), ds')"
    and "docs_inv (in_memory rt c x y) ds"
    and "xs = drop idoc x"
  shows "docs_inv (in_memory rt c x y) ds'"
  using assms
proof (induction xs arbitrary: idoc ds)
  case Nil
  then show ?case by simp
next
  case (Cons doc rest_docs)
  from Cons.prems(3) have i: "idoc < length x"
    by (cases "idoc < length x") auto
  from Cons.prems(3) i have d: "x ! idoc = doc"
    by (metis hd_drop_conv_nth list.sel(1))
  from Cons.prems(3) have r: "rest_docs = drop (Suc idoc) x"
    by (metis drop_Suc tl_drop list.sel(3))
  from Cons.prems(1) obtain cat r' l where
    c: "py_nth y idoc = Inr cat" and cl: "classify c doc = Inr r'"
    and t: "top_label (float_bool rt) (unknown_index c) r' = Inr l"
    and rec: "set_testset_loop rt c y (Suc idoc) rest_docs
      (dict_upd cat (\<lambda>e. e\<lparr>clf_result := clf_result e @ [l]\<rparr>)
        (dict_upd cat (\<lambda>e. e\<lparr>path := path e @ [x_test_locator idoc]\<rparr>)
          (dict_upd cat (\<lambda>e. e\<lparr>file := file e @ [doc_name idoc]\<rparr>) ds))) = (Inr (), ds')"
    by (auto simp: Let_def split: sum.splits)
  from c have y: "idoc < length y" "y ! idoc = cat"
    by (auto simp: py_nth_def split: if_splits)
  have "in_memory rt c x y cat (x_test_locator idoc) (doc_name idoc) l"
    using i y d cl t by (auto simp: in_memory_def list_ex_iff doc_label_def)
  with Cons.prems(2) have inv: "docs_inv (in_memory rt c x y)
      (dict_upd cat (\<lambda>e. e\<lparr>clf_result := clf_result e @ [l]\<rparr>)
        (dict_upd cat (\<lambda>e. e\<lparr>path := path e @ [x_test_locator idoc]\<rparr>)
          (dict_upd cat (\<lambda>e. e\<lparr>file := file e @ [doc_name idoc]\<rparr>) ds)))"
    by (rule docs_inv_append3)
  show ?case by (rule Cons.IH [OF rec inv r])
qed

lemma docs_inv_init:
  "docs_inv R ds \<Longrightarrow> docs_inv R (foldl (\<lambda>ds cat. dict_set cat new_entry ds) ds cats)"
  by (induction cats arbitrary: ds) (simp_all add: docs_inv_set entry_inv_new)

lemma set_testset_inv:
  assumes "set_testset rt sv lg x y = (Inr b, sv', lg')" and "clf sv = Some c"
  shows "docs_inv (in_memory rt c x y) (docs sv')"
proof -
  from assms obtain ds where
    l: "set_testset_loop rt c y 0 x
          (foldl (\<lambda>ds cat. dict_set cat new_entry ds) [] (remdups y)) = (Inr (), ds)"
    and d: "docs sv' = ds"
    by (auto simp: set_testset_def clear_testset_def Let_def split: sum.splits prod.splits)
  have "docs_inv (in_memory rt c x y) (foldl (\<lambda>ds cat. dict_set cat new_entry ds) [] (remdups y))"
    by (intro docs_inv_init docs_inv_Nil)
  with l have "docs_inv (in_memory rt c x y) ds"
    by (rule set_testset_loop_inv) simp
  with d show ?thesis by simp
qed

lemma classify_all_labels:
  "classify_all rt c ls = Inr rs \<Longrightarrow>
   length rs = length ls \<and> (\<forall>i<length ls. doc_label rt c (ls ! i) = Inr (rs ! i))"
proof (induction ls arbitrary: rs)
  case Nil
  then show ?case by simp
next
  case (Cons l ls)
  from Cons.prems obtain r x xs where
    "classify c l = Inr r" "top_label (float_bool rt) (unknown_index c) r = Inr x"
    "classify_all rt c ls = Inr xs" "rs = x # xs"
    by (auto split: sum.splits)
  with Cons.IH [of xs] show ?case
    by (auto simp: doc_label_def nth_Cons split: nat.splits)
qed

lemma lines_entry_inv:
  assumes "listdir (files rt) tp = Inr names" and "name \<in> set names"
    and "open_text (files rt) (path_join tp name) = Inr h"
    and "classify_all rt c (rest h) = Inr rs"
  shows "entry_inv (in_lines rt c tp (fst (path_splitext name))) (lines_entry (path_join tp name) rs)"
proof -
  from assms(4) have len: "length rs = length (rest h)"
    and lab: "\<And>i. i < length (rest h) \<Longrightarrow> doc_label rt c (rest h ! i) = Inr (rs ! i)"
    by (auto dest: classify_all_labels)
  have "in_lines rt c tp (fst (path_splitext name)) (line_locator (path_join tp name) i)
          (doc_name i) (rs ! i)" if "i < length rs" for i
  proof -
    from that len lab [of i]
    have "list_ex (\<lambda>j. line_locator (path_join tp name) i = line_locator (path_join tp name) j \<and>
                        doc_name i = doc_name j \<and> doc_label rt c (rest h ! j) = Inr (rs ! i))
            [0 ..< length (rest h)]"
      unfolding list_ex_iff by (intro bexI [of _ i]) simp_all
    with assms(2,3) show ?thesis
      unfolding in_lines_def assms(1) list_ex_iff sum.case by (intro bexI [of _ name]) simp_all
  qed
  then show ?thesis
    by (simp add: entry_inv_def lines_entry_def list_all_iff)
qed

lemma label_files_inv:
  assumes "label_files rt c tp fs ds = (Inr (), ds')"
    and "listdir (files rt) tp = Inr names" and "set fs \<subseteq> set names"
    and "docs_inv (in_lines rt c tp) ds"
  shows "docs_inv (in_lines rt c tp) ds'"
  using assms(1,3,4)
proof (induction fs arbitrary: ds)
  case Nil
  then show ?case by simp
next
  case (Cons f fs)
  show ?case
  proof (cases "path_isfile (files rt) (path_join tp f)")
    case False
    with Cons.prems have "label_files rt c tp fs ds = (Inr (), ds')" by simp
    with Cons.prems show ?thesis by (intro Cons.IH) auto
  next
    case True
    with Cons.prems(1) obtain h rs where
      o: "open_text (files rt) (path_join tp f) = Inr h"
      and ca: "classify_all rt c (rest h) = Inr rs"
      and rec: "label_files rt c tp fs
          (dict_set (fst (path_splitext f)) (lines_entry (path_join tp f) rs) ds) = (Inr (), ds')"
      by (auto simp: Let_def split: sum.splits)
    from Cons.prems(2) have "f \<in> set names" by simp
    with assms(2) have "entry_inv (in_lines rt c tp (fst (path_splitext f)))
        (lines_entry (path_join tp f) rs)"
      using o ca by (rule lines_entry_inv)
    with Cons.prems(3) have "docs_inv (in_lines rt c tp)
        (dict_set (fst (path_splitext f)) (lines_entry (path_join tp f) rs) ds)"
      by (rule docs_inv_set)
    with rec Cons.prems(2) show ?thesis by (intro Cons.IH) auto
  qed
qed

lemma folder_files_inv:
  assumes "folder_files rt c cat (path_join tp cat) fs ds = (Inr (), ds')"
    and "docs_inv (in_folder rt c tp) ds"
  shows "docs_inv (in_folder rt c tp) ds'"
  using assms
proof (induction fs arbitrary: ds)
  case Nil
  then show ?case by simp
next
  case (Cons f fs)
  let ?p = "path_join (path_join tp cat) f"
  show ?case
  proof (cases "path_isfile (files rt) ?p")
    case False
    with Cons.prems have "folder_files rt c cat (path_join tp cat) fs ds = (Inr (), ds')"
      by simp
    with Cons.prems(2) show ?thesis by (intro Cons.IH)
  next
    case True
    with Cons.prems(1) obtain t r l where
      rd: "read_text (files rt) ?p = Inr t" and cl: "classify c t = Inr r"
      and tl: "top_label (float_bool rt) (unknown_index c) r = Inr l"
      and rec: "folder_files rt c cat (path_join tp cat) fs
        (dict_upd cat (\<lambda>e. e\<lparr>clf_result := clf_result e @ [l]\<rparr>)
          (dict_upd cat (\<lambda>e. e\<lparr>file := file e @ [f]\<rparr>)
            (dict_upd cat (\<lambda>e. e\<lparr>path := path e @ [?p]\<rparr>) ds))) = (Inr (), ds')"
      by (auto simp: Let_def split: sum.splits)
    have "in_folder rt c tp cat ?p f l"
      using rd cl tl by (simp add: in_folder_def doc_label_def)
    with Cons.prems(2) have inv: "docs_inv (in_folder rt c tp)
        (dict_upd cat (\<lambda>e. e\<lparr>clf_result := clf_result e @ [l]\<rparr>)
          (dict_upd cat (\<lambda>e. e\<lparr>file := file e @ [f]\<rparr>)
            (dict_upd cat (\<lambda>e. e\<lparr>path := path e @ [?p]\<rparr>) ds)))"
      by (rule docs_inv_append3')
    show ?thesis by (rule Cons.IH [OF rec inv])
  qed
qed

lemma folder_cats_inv:
  assumes "folder_cats rt c tp cats ds = (Inr (), ds')"
    and "docs_inv (in_folder rt c tp) ds"
  shows "docs_inv (in_folder rt c tp) ds'"
  using assms
proof (induction cats arbitrary: ds)
  case Nil
  then show ?case by simp
next
  case (Cons cat cats)
  show ?case
  proof (cases "path_isfile (files rt) (path_join tp cat)")
    case True
    with Cons.prems have "folder_cats rt c tp cats ds = (Inr (), ds')" by simp
    with Cons.prems(2) show ?thesis by (intro Cons.IH)
  next
    case False
    with Cons.prems(1) obtain names ds1 where
      ff: "folder_files rt c cat (path_join tp cat) (sort names) (dict_set cat new_entry ds) =
            (Inr (), ds1)"
      and rec: "folder_cats rt c tp cats ds1 = (Inr (), ds')"
      by (auto simp: Let_def split: sum.splits prod.splits)
    from Cons.prems(2) have "docs_inv (in_folder rt c tp) (dict_set cat new_entry ds)"
      by (simp add: docs_inv_set entry_inv_new)
    with ff have "docs_inv (in_folder rt c tp) ds1" by (rule folder_files_inv)
    with rec show ?thesis by (rule Cons.IH)
  qed
qed

text \<open>
  C7. After a build that succeeds, from documents in memory, from folders or
  from the lines of files, the lists \<^verbatim>\<open>path\<close>, \<^verbatim>\<open>file\<close> and \<^verbatim>\<open>clf_result\<close> of
  every category have the same length, and at every index they belong to the
  same document: its locator, its name, and the label that the classifier gives
  to its text.
\<close>

theorem test_corpus_parallel_sequences:
  "(set_testset rt sv lg x y = (Inr b1, sv1, lg1) \<and> clf sv = Some c \<longrightarrow>
      docs_inv (in_memory rt c x y) (docs sv1)) \<and>
   (set_testset_from_files rt sv lg test_path True = (Inr b2, sv2, lg2) \<and> clf sv = Some c \<longrightarrow>
      docs_inv (in_folder rt c test_path) (docs sv2)) \<and>
   (set_testset_from_files rt sv lg test_path False = (Inr b3, sv3, lg3) \<and> clf sv = Some c \<longrightarrow>
      docs_inv (in_lines rt c test_path) (docs sv3))"
proof (intro conjI impI)
  assume "set_testset rt sv lg x y = (Inr b1, sv1, lg1) \<and> clf sv = Some c"
  then show "docs_inv (in_memory rt c x y) (docs sv1)"
    by (auto intro: set_testset_inv)
next
  assume a: "set_testset_from_files rt sv lg test_path True = (Inr b2, sv2, lg2) \<and> clf sv = Some c"
  then obtain names where n: "listdir (files rt) test_path = Inr names"
    by (cases "listdir (files rt) test_path")
       (auto simp: set_testset_from_files_def clear_testset_def Let_def)
  with a have "folder_cats rt c test_path names [] = (Inr (), docs sv2)"
    by (auto simp: set_testset_from_files_def clear_testset_def Let_def
        split: sum.splits prod.splits)
  then show "docs_inv (in_folder rt c test_path) (docs sv2)"
    by (rule folder_cats_inv) (rule docs_inv_Nil)
next
  assume a: "set_testset_from_files rt sv lg test_path False = (Inr b3, sv3, lg3) \<and> clf sv = Some c"
  then obtain names where n: "listdir (files rt) test_path = Inr names"
    by (cases "listdir (files rt) test_path")
       (auto simp: set_testset_from_files_def clear_testset_def Let_def)
  with a have "label_files rt c test_path names [] = (Inr (), docs sv3)"
    by (auto simp: set_testset_from_files_def clear_testset_def Let_def
        split: sum.splits prod.splits)
  then show "docs_inv (in_lines rt c test_path) (docs sv3)"
    using n by (rule label_files_inv) (simp_all add: docs_inv_Nil)
qed

lemma ex_files:
  "files ex_rt (u ''/t/b.txt'') = Some (File (''one'' @ [CHR 0x0A] @ ''three'' @ [CHR 0x0A] @ ''x''))"
  "files ex_rt (u ''/t/A'') = Some (Dir [u ''n'', u ''m''])"
  "files ex_rt (u ''/t'') = Some (Dir [u ''b.txt'', u ''A''])"
  "files ex_rt (u ''/t/A/m'') = Some (File ''ab'')"
  "files ex_rt (u ''/t/A/n'') = Some (File ''abc'')"
  by (simp_all add: ex_rt_def ex_fs_def u_def)

lemma ex_joins:
  "path_join (u ''/t'') (u ''b.txt'') = u ''/t/b.txt''"
  "path_join (u ''/t'') (u ''A'') = u ''/t/A''"
  "path_join (u ''/t/A'') (u ''m'') = u ''/t/A/m''"
  "path_join (u ''/t/A'') (u ''n'') = u ''/t/A/n''"
  by (simp_all add: path_join_def SEP_def u_def)

lemma ex_sort: "sort [u ''n'', u ''m''] = [u ''m'', u ''n'']"
  by (simp add: u_def)

lemma ex_labels:
  "classify ex_clf (u ''ab'') = Inr [(0, 2), (1, 0)]"
  "classify ex_clf (u ''abc'') = Inr [(1, 0), (0, 0)]"
  "classify ex_clf (u ''one'' @ [10]) = Inr [(0, 1), (1, 0)]"
  "classify ex_clf (u ''three'' @ [10]) = Inr [(0, 0), (1, 0)]"
  "classify ex_clf (u ''x'') = Inr [(1, 1), (0, 0)]"
  by (simp_all add: ex_clf_def ex_classify_def u_def)

lemma ex_top:
  "top_label (float_bool ex_rt) (unknown_index ex_clf) ((a, v) # r) = Inr (if v \<noteq> 0 then a else 2)"
  by (simp add: top_label_def ex_rt_def unknown_index_def ex_clf_def)

lemma ex_splitext: "path_splitext (u ''b.txt'') = (u ''b'', u ''.txt'')"
  by (simp add: path_splitext_def rfind_def SEP_def DOT_def u_def)

lemma ex_text:
  "utf8_decode (''one'' @ [CHR 0x0A] @ ''three'' @ [CHR 0x0A] @ ''x'') =
     Inr (u ''one'' @ [10] @ u ''three'' @ [10] @ u ''x'')"
  "utf8_decode ''ab'' = Inr (u ''ab'')"
  "utf8_decode ''abc'' = Inr (u ''abc'')"
  by (simp_all add: cons_ok_def u_def)

lemma ex_lines:
  "splitlines (u ''one'' @ [10] @ u ''three'' @ [10] @ u ''x'') =
     [u ''one'' @ [10], u ''three'' @ [10], u ''x'']"
  by (simp add: u_def is_linebreak_def)

lemma ex_read:
  "read_text (files ex_rt) (u ''/t/A/m'') = Inr (u ''ab'')"
  "read_text (files ex_rt) (u ''/t/A/n'') = Inr (u ''abc'')"
  "open_text (files ex_rt) (u ''/t/b.txt'') =
     Inr \<lparr>rest = [u ''one'' @ [10], u ''three'' @ [10], u ''x''], reads = 0\<rparr>"
  unfolding open_text_def read_text_def read_bytes_def ex_files option.case fnode.case sum.case
    ex_text ex_lines
  by (rule refl)+

lemma ex_isfile:
  "path_isfile (files ex_rt) (u ''/t/b.txt'')"
  "\<not> path_isfile (files ex_rt) (u ''/t/A'')"
  "path_isfile (files ex_rt) (u ''/t/A/m'')"
  "path_isfile (files ex_rt) (u ''/t/A/n'')"
  by (simp_all add: path_isfile_def ex_files)

lemma ex_listdir:
  "listdir (files ex_rt) (u ''/t'') = Inr [u ''b.txt'', u ''A'']"
  "listdir (files ex_rt) (u ''/t/A'') = Inr [u ''n'', u ''m'']"
  by (simp_all add: listdir_def ex_files)

lemma ex_le: "\<not> u ''n'' \<le> u ''m''"
  by (simp add: u_def)

lemma ex_folder:
  "set_testset_from_files ex_rt ex_srv [] (u ''/t'') True =
     (Inr True,
      ex_srv\<lparr>docs := ex_docs_folder\<rparr>,
      [Info (u ''reading files...''), Info (str_of_nat 1 @ u '' categories found'')])"
  unfolding set_testset_from_files_def
  by (simp add: clear_testset_def ex_srv_def ex_listdir ex_joins ex_isfile ex_read
      ex_labels ex_top ex_le new_entry_def categories_found_def ex_docs_folder_def)

lemma ex_lines_mode:
  "set_testset_from_files ex_rt ex_srv [] (u ''/t'') False =
     (Inr True,
      ex_srv\<lparr>docs := ex_docs_lines\<rparr>,
      [Info (u ''reading files...''), Info (str_of_nat 1 @ u '' categories found'')])"
proof -
  show ?thesis
    unfolding set_testset_from_files_def
    by (simp add: clear_testset_def ex_srv_def ex_listdir ex_joins ex_isfile ex_read
        ex_labels ex_top ex_splitext lines_entry_def categories_found_def Let_def
        numeral_2_eq_2 ex_docs_lines_def)
qed

lemma ex_memory:
  "set_testset ex_rt ex_srv [] [u ''ab'', u ''abc''] [u ''A'', u ''B''] =
     (Inr True,
      ex_srv\<lparr>docs := ex_docs_memory, x_test := Some [u ''ab'', u ''abc'']\<rparr>,
      [Info (str_of_nat (Suc (Suc 0)) @ u '' categories found'')])"
proof -
  have ne: "u ''A'' \<noteq> u ''B''" "u ''B'' \<noteq> u ''A''"
    by (simp_all add: u_def)
  show ?thesis
    unfolding set_testset_def
    by (simp add: clear_testset_def ex_srv_def ne py_nth_def ex_labels ex_top new_entry_def
        categories_found_def ex_docs_memory_def)
qed

theorem test_corpus_parallel_sequences_witness:
  "(set_testset ex_rt ex_srv [] [u ''ab'', u ''abc''] [u ''A'', u ''B''] =
      (Inr True, ex_srv\<lparr>docs := ex_docs_memory, x_test := Some [u ''ab'', u ''abc'']\<rparr>,
       [Info (str_of_nat (Suc (Suc 0)) @ u '' categories found'')]) \<and>
    clf ex_srv = Some ex_clf) \<and>
   (set_testset_from_files ex_rt ex_srv [] (u ''/t'') True =
      (Inr True, ex_srv\<lparr>docs := ex_docs_folder\<rparr>,
       [Info (u ''reading files...''), Info (str_of_nat 1 @ u '' categories found'')]) \<and>
    clf ex_srv = Some ex_clf) \<and>
   (set_testset_from_files ex_rt ex_srv [] (u ''/t'') False =
      (Inr True, ex_srv\<lparr>docs := ex_docs_lines\<rparr>,
       [Info (u ''reading files...''), Info (str_of_nat 1 @ u '' categories found'')]) \<and>
    clf ex_srv = Some ex_clf) \<and>
   docs_inv (in_memory ex_rt ex_clf [u ''ab'', u ''abc''] [u ''A'', u ''B'']) ex_docs_memory \<and>
   docs_inv (in_folder ex_rt ex_clf (u ''/t'')) ex_docs_folder \<and>
   docs_inv (in_lines ex_rt ex_clf (u ''/t'')) ex_docs_lines"
proof -
  have c: "clf ex_srv = Some ex_clf"
    by (simp add: ex_srv_def)
  from test_corpus_parallel_sequences [of ex_rt ex_srv "[]" "[u ''ab'', u ''abc'']"
      "[u ''A'', u ''B'']" True
      "ex_srv\<lparr>docs := ex_docs_memory, x_test := Some [u ''ab'', u ''abc'']\<rparr>"
      "[Info (str_of_nat (Suc (Suc 0)) @ u '' categories found'')]" ex_clf "u ''/t''" True
      "ex_srv\<lparr>docs := ex_docs_folder\<rparr>"
      "[Info (u ''reading files...''), Info (str_of_nat 1 @ u '' categories found'')]" True
      "ex_srv\<lparr>docs := ex_docs_lines\<rparr>"
      "[Info (u ''reading files...''), Info (str_of_nat 1 @ u '' categories found'')]"]
    ex_memory ex_folder ex_lines_mode c
  show ?thesis by simp
qed

end
